theory Spec2Isabelle
  imports Complex_Main
begin

section \<open>Values of the program\<close>

text \<open>
  The program is \<^verbatim>\<open>peer.py\<close>: a \<^verbatim>\<open>Recorder\<close> that remembers which files of
  \<^verbatim>\<open>./share\<close> were transferred, and a \<^verbatim>\<open>Peer\<close> that connects to one other peer over
  TCP and exchanges files with it.

  Python \<^verbatim>\<open>bytes\<close> are lists of 8-bit characters. A Python \<^verbatim>\<open>str\<close> that names a file
  is modelled by the bytes of the name on the disk. \<^verbatim>\<open>decode()\<close> checks that the bytes are
  well-formed UTF-8 and raises \<^verbatim>\<open>UnicodeDecodeError\<close> otherwise. A name on the disk that
  is not well-formed UTF-8 reaches the program, from \<^verbatim>\<open>os.walk\<close>, as a \<^verbatim>\<open>str\<close> with
  surrogate escapes, on which \<^verbatim>\<open>encode()\<close> raises \<^verbatim>\<open>UnicodeEncodeError\<close>; on any other
  name \<^verbatim>\<open>encode()\<close> gives the bytes of the name. The float that \<^verbatim>\<open>os.stat\<close> returns for a modification time is
  modelled by its rational value: on finite floats \<^verbatim>\<open>==\<close> is equality of values.
\<close>

type_synonym bytes = "char list"
type_synonym path = string
type_synonym timestamp = rat

text \<open>
  The exceptions the program can meet, with the part of Python's class hierarchy its
  \<^verbatim>\<open>except\<close> clauses depend on: \<^verbatim>\<open>ConnectionError\<close> (reset, aborted, refused, broken
  pipe), \<^verbatim>\<open>TimeoutError\<close> (which \<^verbatim>\<open>socket.timeout\<close> is), \<^verbatim>\<open>FileNotFoundError\<close>,
  \<^verbatim>\<open>FileExistsError\<close> and \<^verbatim>\<open>IsADirectoryError\<close> are subclasses of \<^verbatim>\<open>OSError\<close>;
  \<^verbatim>\<open>OtherOSError\<close> is any other \<^verbatim>\<open>OSError\<close> (no route to host, address in use,
  invalid argument, not connected).
\<close>

datatype oserror =
  ConnectionError | TimeoutError | FileNotFoundError | FileExistsError
  | IsADirectoryError | OtherOSError

datatype exn =
  OSError oserror | KeyError | StructError | UnicodeDecodeError | UnicodeEncodeError
  | JSONDecodeError | RecursionError | AttributeError

fun is_OSError :: "exn \<Rightarrow> bool" where
  "is_OSError (OSError _) = True"
| "is_OSError _ = False"

fun is_ConnectionError :: "exn \<Rightarrow> bool" where
  "is_ConnectionError (OSError ConnectionError) = True"
| "is_ConnectionError _ = False"

fun is_struct_error :: "exn \<Rightarrow> bool" where
  "is_struct_error StructError = True"
| "is_struct_error _ = False"

subsection \<open>The record of a path\<close>

text \<open>
  \<^verbatim>\<open>self.record\<close> is a dict from a path to a dict with the keys \<^verbatim>\<open>"ownership"\<close> and
  \<^verbatim>\<open>"mtime"\<close>, each of which may be missing (a record read back from the JSON file
  holds whatever the file held).
\<close>

record entry =
  ownership :: "bool option"
  mtime :: "timestamp option"

subsection \<open>The disk\<close>

text \<open>
  The disk is a map from a path, as the program writes it, to a file (its content and
  modification time) or a directory. \<^verbatim>\<open>./sync_record.json\<close> is kept apart from it, by
  what reading it gives: the file is missing; or it holds bytes that are not text in the
  encoding \<^verbatim>\<open>open\<close> reads with (\<open>Undecodable\<close>); or it holds text that is JSON nested
  deeper than the parser's recursion limit (\<open>TooDeep\<close>); or it holds any other text that
  is not JSON (\<open>Garbage\<close>); or it holds the dump of a record, which is what the program
  itself writes. (A file that holds JSON of another shape is left out: \<^verbatim>\<open>json.load\<close>
  returns it, and it is the later uses of \<^verbatim>\<open>self.record\<close> that fail on it.)
\<close>

datatype node = File (content: bytes) (modified: timestamp) | Dir (modified: timestamp)

datatype record_file = Missing | Undecodable | TooDeep | Garbage | Snapshot "path \<rightharpoonup> entry"

subsection \<open>The network\<close>

text \<open>
  What the other side and the network do is a script the model reads. For a connection,
  \<open>inbound\<close> lists what arrives, in order: a segment of bytes, the end of the stream
  (the peer closed), or an error; one \<^verbatim>\<open>recv\<close> never returns bytes of two segments.
  When the list is empty nothing arrives any more and the connection stays open.
  \<open>outbound\<close> lists the outcomes of the next calls of \<^verbatim>\<open>send\<close> and \<^verbatim>\<open>sendfile\<close>;
  when it is empty they succeed.
\<close>

datatype rx = Seg bytes | Eof | RxErr oserror

datatype tx = TxOk | TxErr oserror

record conn =
  inbound :: "rx list"
  outbound :: "tx list"

text \<open>
  A socket object: its timeout (\<open>None\<close> is Python's default, a blocking socket),
  whether \<^verbatim>\<open>bind\<close> succeeded on it, whether \<^verbatim>\<open>listen\<close> succeeded on it, and the
  connection it carries, if any.
\<close>

record socket =
  timeout :: "nat option"
  bound :: bool
  listening :: bool
  link :: "conn option"

datatype connect_outcome = Connects conn | ConnectFails oserror

datatype accept_outcome = Accepts conn | AcceptFails oserror

subsection \<open>What the program does to the outside\<close>

text \<open>
  Every call that acts on the disk or on a socket appends an event to the trace, so
  that the order of the calls can be stated.
\<close>

datatype event =
  EvDump "path \<rightharpoonup> entry"
  | EvMkdir path
  | EvOpenW path
  | EvWrite path bytes
  | EvSocket nat
  | EvConnect nat string nat
  | EvBind nat nat
  | EvListen nat nat
  | EvAccept nat
  | EvRecv nat nat bytes
  | EvSend nat bytes
  | EvSendfile nat bytes

subsection \<open>The state\<close>

text \<open>
  One record holds the attributes of the \<^verbatim>\<open>Recorder\<close> (\<open>recorder_record\<close> is
  \<^verbatim>\<open>self.record\<close>), the attributes of the \<^verbatim>\<open>Peer\<close> (sockets are held by their
  number in \<open>sockets\<close>, so that \<^verbatim>\<open>self.sock\<close> and \<^verbatim>\<open>self.conn_sock\<close> can be the same
  object), the disk, the network and the trace. \<open>mode\<close> is 0 (initial), 1 (client) or
  2 (server), as in the source. \<open>walk\<close> is what
  \<^verbatim>\<open>os.walk("./share", topdown=False)\<close> yields for a disk: the order of a directory
  listing is the operating system's.
\<close>

record state =
  recorder_record :: "path \<rightharpoonup> entry"
  peer_ip :: string
  port :: nat
  receive_buffer_size :: nat
  sock :: nat
  conn_sock :: "nat option"
  mode :: nat
  sync_record_json :: record_file
  nodes :: "path \<rightharpoonup> node"
  walk :: "(path \<rightharpoonup> node) \<Rightarrow> (path \<times> string list \<times> string list) list"
  clock :: timestamp
  sockets :: "nat \<rightharpoonup> socket"
  next_fd :: nat
  connects :: "connect_outcome list"
  binds :: "oserror option list"
  listens :: "oserror option list"
  accepts :: "accept_outcome list"
  trace :: "event list"

text \<open>
  A call returns a value, or raises an exception, in a state; it may also never return
  (\<open>None\<close>): a blocking call on which nothing arrives, or a loop that does not end.
\<close>

datatype 'a res = Ret 'a state | Exc exn state

definition bind_io :: "'a res option \<Rightarrow> ('a \<Rightarrow> state \<Rightarrow> 'b res option) \<Rightarrow> 'b res option" where
  "bind_io m k =
     (case m of
        None \<Rightarrow> None
      | Some (Ret a s) \<Rightarrow> k a s
      | Some (Exc e s) \<Rightarrow> Some (Exc e s))"

text \<open>\<^verbatim>\<open>try: m except E: h\<close>, where \<open>handles\<close> says which exceptions \<^verbatim>\<open>E\<close> names.\<close>

definition catch_io :: "'a res option \<Rightarrow> (exn \<Rightarrow> bool) \<Rightarrow> (state \<Rightarrow> 'a res option) \<Rightarrow> 'a res option" where
  "catch_io m handles h =
     (case m of
        None \<Rightarrow> None
      | Some (Ret a s) \<Rightarrow> Some (Ret a s)
      | Some (Exc e s) \<Rightarrow> if handles e then h s else Some (Exc e s))"

definition pure_io :: "exn + 'a \<Rightarrow> state \<Rightarrow> 'a res option" where
  "pure_io r s = (case r of Inl e \<Rightarrow> Some (Exc e s) | Inr a \<Rightarrow> Some (Ret a s))"

definition step_io :: "exn + state \<Rightarrow> state \<Rightarrow> unit res option" where
  "step_io r s = (case r of Inl e \<Rightarrow> Some (Exc e s) | Inr s' \<Rightarrow> Some (Ret () s'))"

text \<open>
  Loops that may not end are defined as least fixed points; a recursive call may stand
  in the continuation of \<open>bind_io\<close>.
\<close>

lemma bind_io_mono [partial_function_mono]:
  assumes mf: "mono_option B" and mg: "\<And>a s. mono_option (\<lambda>f. C a s f)"
  shows "mono_option (\<lambda>f. bind_io (B f) (\<lambda>a s. C a s f))"
proof -
  have eq: "\<And>f. bind_io (B f) (\<lambda>a s. C a s f) =
      Option.bind (B f) (\<lambda>r. case r of Ret a s \<Rightarrow> C a s f | Exc e s \<Rightarrow> Some (Exc e s))"
    by (simp add: bind_io_def split: option.splits res.splits)
  show ?thesis
    unfolding eq
  proof (rule bind_mono [OF mf])
    fix r
    show "mono_option (\<lambda>f. case r of Ret a s \<Rightarrow> C a s f | Exc e s \<Rightarrow> Some (Exc e s))"
      by (cases r) (simp_all add: mg option.const_mono)
  qed
qed

section \<open>Primitives of the operating system\<close>

subsection \<open>Paths and files\<close>

definition os_path_isdir :: "state \<Rightarrow> path \<Rightarrow> bool" where
  "os_path_isdir s p = (case nodes s p of Some (Dir _) \<Rightarrow> True | _ \<Rightarrow> False)"

definition os_path_exists :: "state \<Rightarrow> path \<Rightarrow> bool" where
  "os_path_exists s p = (p \<noteq> [] \<and> nodes s p \<noteq> None)"

text \<open>\<^verbatim>\<open>os.path.getmtime(p)\<close> and \<^verbatim>\<open>os.stat(p).st_mtime\<close>.\<close>

definition os_path_getmtime :: "state \<Rightarrow> path \<Rightarrow> exn + timestamp" where
  "os_path_getmtime s p =
     (case nodes s p of
        None \<Rightarrow> Inl (OSError FileNotFoundError)
      | Some n \<Rightarrow> Inr (modified n))"

text \<open>
  \<^verbatim>\<open>os.path.getsize(p)\<close>; the size of a directory is the file system's own, and the
  program never asks for it.
\<close>

definition os_path_getsize :: "state \<Rightarrow> path \<Rightarrow> exn + nat" where
  "os_path_getsize s p =
     (case nodes s p of
        None \<Rightarrow> Inl (OSError FileNotFoundError)
      | Some (File c _) \<Rightarrow> Inr (length c)
      | Some (Dir _) \<Rightarrow> Inr 4096)"

text \<open>\<^verbatim>\<open>os.path.join(root, name)\<close> on POSIX (\<open>dirpath\<close> is \<^verbatim>\<open>root\<close>).\<close>

definition os_path_join :: "path \<Rightarrow> string \<Rightarrow> path" where
  "os_path_join dirpath name =
     (if name \<noteq> [] \<and> hd name = CHR ''/'' then name
      else if dirpath = [] \<or> last dirpath = CHR ''/'' then dirpath @ name
      else dirpath @ ''/'' @ name)"

text \<open>
  \<^verbatim>\<open>p.rsplit(sep="/", maxsplit=1)[0]\<close>: what stands before the last \<^verbatim>\<open>/\<close> of \<open>p\<close>, and
  \<open>p\<close> itself when it has none.
\<close>

definition rsplit_head :: "string \<Rightarrow> string" where
  "rsplit_head p =
     (if CHR ''/'' \<in> set p then rev (tl (dropWhile (\<lambda>c. c \<noteq> CHR ''/'') (rev p))) else p)"

text \<open>
  The directory a new entry \<open>p\<close> is made in must exist: the one before the last
  \<^verbatim>\<open>/\<close> of \<open>p\<close>, the root for \<^verbatim>\<open>/name\<close>, and the working directory when \<open>p\<close> has no
  \<^verbatim>\<open>/\<close>.
\<close>

definition parent_exists :: "state \<Rightarrow> path \<Rightarrow> bool" where
  "parent_exists s p =
     (if CHR ''/'' \<in> set p
      then rsplit_head p = [] \<or> os_path_isdir s (rsplit_head p)
      else True)"

definition os_mkdir :: "path \<Rightarrow> state \<Rightarrow> exn + state" where
  "os_mkdir p s =
     (if p = [] then Inl (OSError FileNotFoundError)
      else if nodes s p \<noteq> None then Inl (OSError FileExistsError)
      else if \<not> parent_exists s p then Inl (OSError FileNotFoundError)
      else Inr (s\<lparr>nodes := (nodes s)(p \<mapsto> Dir (clock s)), trace := trace s @ [EvMkdir p]\<rparr>))"

text \<open>\<^verbatim>\<open>open(p, "wb")\<close>: the file is created or emptied.\<close>

definition open_wb :: "path \<Rightarrow> state \<Rightarrow> exn + state" where
  "open_wb p s =
     (if p = [] then Inl (OSError FileNotFoundError)
      else if os_path_isdir s p then Inl (OSError IsADirectoryError)
      else if \<not> parent_exists s p then Inl (OSError FileNotFoundError)
      else Inr (s\<lparr>nodes := (nodes s)(p \<mapsto> File [] (clock s)), trace := trace s @ [EvOpenW p]\<rparr>))"

text \<open>\<^verbatim>\<open>f.write(bs)\<close> on the file opened at \<open>p\<close>.\<close>

definition file_write :: "path \<Rightarrow> bytes \<Rightarrow> state \<Rightarrow> state" where
  "file_write p bs s =
     s\<lparr>nodes := (nodes s)(p \<mapsto> File ((case nodes s p of Some (File c _) \<Rightarrow> c | _ \<Rightarrow> []) @ bs) (clock s)),
       trace := trace s @ [EvWrite p bs]\<rparr>"

text \<open>\<^verbatim>\<open>open(p, "rb")\<close> and reading the file to its end.\<close>

definition read_rb :: "state \<Rightarrow> path \<Rightarrow> exn + bytes" where
  "read_rb s p =
     (case nodes s p of
        None \<Rightarrow> Inl (OSError FileNotFoundError)
      | Some (File c _) \<Rightarrow> Inr c
      | Some (Dir _) \<Rightarrow> Inl (OSError IsADirectoryError))"

text \<open>
  \<^verbatim>\<open>with open("./sync_record.json", "w") as r: json.dump(self.record, r)\<close>.
\<close>

definition json_dump :: "state \<Rightarrow> state" where
  "json_dump s =
     s\<lparr>sync_record_json := Snapshot (recorder_record s),
       trace := trace s @ [EvDump (recorder_record s)]\<rparr>"

section \<open>Recorder\<close>

text \<open>
  \<^verbatim>\<open>with open("./sync_record.json", "r") as r: json.load(r)\<close>: \<^verbatim>\<open>open\<close> raises
  \<^verbatim>\<open>FileNotFoundError\<close> when the file is missing; reading it raises
  \<^verbatim>\<open>UnicodeDecodeError\<close> when its bytes are not text; the parser raises
  \<^verbatim>\<open>RecursionError\<close> on text nested too deep and \<^verbatim>\<open>json.JSONDecodeError\<close> on any other
  text that is not JSON.

  \<^verbatim>\<open>Recorder.__init__\<close>: the record is read from the file; the handler names
  \<^verbatim>\<open>json.JSONDecodeError\<close> and \<^verbatim>\<open>FileNotFoundError\<close>, and gives the empty record.
\<close>

definition json_load :: "state \<Rightarrow> exn + (path \<rightharpoonup> entry)" where
  "json_load s =
     (case sync_record_json s of
        Missing \<Rightarrow> Inl (OSError FileNotFoundError)
      | Undecodable \<Rightarrow> Inl UnicodeDecodeError
      | TooDeep \<Rightarrow> Inl RecursionError
      | Garbage \<Rightarrow> Inl JSONDecodeError
      | Snapshot m \<Rightarrow> Inr m)"

definition Recorder_init :: "state \<Rightarrow> unit res option" where
  "Recorder_init s =
     catch_io
       (bind_io (pure_io (json_load s) s) (\<lambda>m s. Some (Ret () (s\<lparr>recorder_record := m\<rparr>))))
       (\<lambda>e. e = JSONDecodeError \<or> e = OSError FileNotFoundError)
       (\<lambda>s. Some (Ret () (s\<lparr>recorder_record := Map.empty\<rparr>)))"

definition is_unsent :: "state \<Rightarrow> path \<Rightarrow> exn + bool" where
  "is_unsent s p =
     (if \<not> os_path_isdir s p then
        (case recorder_record s p of
           None \<Rightarrow> Inr True
         | Some e \<Rightarrow>
             (case mtime e of
                Some t \<Rightarrow>
                  (case os_path_getmtime s p of
                     Inl x \<Rightarrow> Inl x
                   | Inr t' \<Rightarrow> Inr (t' \<noteq> t))
              | None \<Rightarrow>
                  (case ownership e of
                     None \<Rightarrow> Inl KeyError
                   | Some b \<Rightarrow> Inr b)))
      else Inr False)"

definition set_ownership :: "path \<Rightarrow> bool \<Rightarrow> state \<Rightarrow> state" where
  "set_ownership p val s =
     json_dump (s\<lparr>recorder_record := (recorder_record s)(p \<mapsto> \<lparr>ownership = Some val, mtime = None\<rparr>)\<rparr>)"

definition add_rec :: "path \<Rightarrow> state \<Rightarrow> exn + state" where
  "add_rec p s =
     (case recorder_record s p of
        None \<Rightarrow> Inl KeyError
      | Some e \<Rightarrow>
          (case os_path_getmtime s p of
             Inl x \<Rightarrow> Inl x
           | Inr t \<Rightarrow> Inr (json_dump (s\<lparr>recorder_record := (recorder_record s)(p \<mapsto> e\<lparr>mtime := Some t\<rparr>)\<rparr>))))"

definition del_rec :: "path \<Rightarrow> state \<Rightarrow> state" where
  "del_rec p s = json_dump (s\<lparr>recorder_record := (recorder_record s)(p := None)\<rparr>)"

text \<open>
  \<^verbatim>\<open>get_unsent_files\<close>: the inner loop over \<^verbatim>\<open>files\<close> (extended by \<^verbatim>\<open>dirs\<close>) and the
  outer loop over what \<^verbatim>\<open>os.walk\<close> yields; \<open>acc\<close> is \<^verbatim>\<open>unsent_file_lst\<close>.
\<close>

fun unsent_names :: "state \<Rightarrow> path \<Rightarrow> string list \<Rightarrow> path list \<Rightarrow> exn + path list" where
  "unsent_names s dirpath [] acc = Inr acc"
| "unsent_names s dirpath (name # names) acc =
     (case is_unsent s (os_path_join dirpath name) of
        Inl x \<Rightarrow> Inl x
      | Inr b \<Rightarrow> unsent_names s dirpath names (if b then acc @ [os_path_join dirpath name] else acc))"

fun unsent_walk :: "state \<Rightarrow> (path \<times> string list \<times> string list) list \<Rightarrow> path list \<Rightarrow> exn + path list" where
  "unsent_walk s [] acc = Inr acc"
| "unsent_walk s ((dirpath, dirs, files) # rest) acc =
     (case unsent_names s dirpath (files @ dirs) acc of
        Inl x \<Rightarrow> Inl x
      | Inr acc' \<Rightarrow> unsent_walk s rest acc')"

definition get_unsent_files :: "state \<Rightarrow> exn + path list" where
  "get_unsent_files s = unsent_walk s (walk s (nodes s)) []"

section \<open>Wire protocol\<close>

text \<open>
  \<^verbatim>\<open>Struct("!II")\<close>: two unsigned 32-bit integers, big-endian, 8 bytes. \<^verbatim>\<open>pack\<close>
  raises \<^verbatim>\<open>struct.error\<close> on a number that does not fit, \<^verbatim>\<open>unpack\<close> on a buffer that
  is not 8 bytes long.
\<close>

definition pack_u32 :: "nat \<Rightarrow> bytes" where
  "pack_u32 n = [char_of (n div 16777216), char_of (n div 65536), char_of (n div 256), char_of n]"

definition unpack_u32 :: "char \<Rightarrow> char \<Rightarrow> char \<Rightarrow> char \<Rightarrow> nat" where
  "unpack_u32 a b c d = ((of_char a * 256 + of_char b) * 256 + of_char c) * 256 + of_char d"

definition header_size :: nat where
  "header_size = 8"

definition header_pack :: "nat \<Rightarrow> nat \<Rightarrow> exn + bytes" where
  "header_pack a b =
     (if a < 4294967296 \<and> b < 4294967296 then Inr (pack_u32 a @ pack_u32 b) else Inl StructError)"

fun header_unpack :: "bytes \<Rightarrow> exn + nat \<times> nat" where
  "header_unpack [a0, a1, a2, a3, b0, b1, b2, b3] = Inr (unpack_u32 a0 a1 a2 a3, unpack_u32 b0 b1 b2 b3)"
| "header_unpack _ = Inl StructError"

text \<open>
  \<^verbatim>\<open>bytes.decode()\<close>: strict UTF-8. \<^verbatim>\<open>str.encode()\<close> on the name of a file: the bytes
  of the name when they are UTF-8, and \<^verbatim>\<open>UnicodeEncodeError\<close> otherwise.
\<close>

definition cont :: "nat \<Rightarrow> bool" where
  "cont b = (128 \<le> b \<and> b \<le> 191)"

fun utf8 :: "nat list \<Rightarrow> bool" where
  "utf8 [] = True"
| "utf8 (a # bs) =
     (if a < 128 then utf8 bs
      else if 194 \<le> a \<and> a \<le> 223 then
        (case bs of b # r \<Rightarrow> cont b \<and> utf8 r | _ \<Rightarrow> False)
      else if 224 \<le> a \<and> a \<le> 239 then
        (case bs of
           b # c # r \<Rightarrow>
             (if a = 224 then 160 \<le> b \<and> b \<le> 191
              else if a = 237 then 128 \<le> b \<and> b \<le> 159
              else cont b) \<and> cont c \<and> utf8 r
         | _ \<Rightarrow> False)
      else if 240 \<le> a \<and> a \<le> 244 then
        (case bs of
           b # c # d # r \<Rightarrow>
             (if a = 240 then 144 \<le> b \<and> b \<le> 191
              else if a = 244 then 128 \<le> b \<and> b \<le> 143
              else cont b) \<and> cont c \<and> cont d \<and> utf8 r
         | _ \<Rightarrow> False)
      else False)"

definition decode :: "bytes \<Rightarrow> exn + string" where
  "decode bs = (if utf8 (map of_char bs) then Inr bs else Inl UnicodeDecodeError)"

definition encode :: "string \<Rightarrow> exn + bytes" where
  "encode p = (if utf8 (map of_char p) then Inr p else Inl UnicodeEncodeError)"

section \<open>Sockets\<close>

text \<open>\<^verbatim>\<open>socket.socket(socket.AF_INET, socket.SOCK_STREAM)\<close>: a new blocking socket.\<close>

definition socket_socket :: "state \<Rightarrow> nat res option" where
  "socket_socket s =
     Some (Ret (next_fd s)
       (s\<lparr>sockets := (sockets s)(next_fd s \<mapsto> \<lparr>timeout = None, bound = False, listening = False, link = None\<rparr>),
          next_fd := Suc (next_fd s),
          trace := trace s @ [EvSocket (next_fd s)]\<rparr>))"

text \<open>
  \<^verbatim>\<open>connect\<close>, \<^verbatim>\<open>bind\<close>, \<^verbatim>\<open>listen\<close> and \<^verbatim>\<open>accept\<close> read their outcome from the
  script. When the script is empty nobody listens at the peer's address (the connection
  is refused), \<^verbatim>\<open>bind\<close> and \<^verbatim>\<open>listen\<close> succeed, and nobody connects: \<^verbatim>\<open>accept\<close> on a
  socket with no timeout blocks for ever, and raises \<^verbatim>\<open>socket.timeout\<close> on a socket
  that has one.

  The state of the socket comes before the script. \<^verbatim>\<open>connect\<close> on a socket that listens
  or is connected raises an \<^verbatim>\<open>OSError\<close> (\<^verbatim>\<open>EISCONN\<close>), and \<^verbatim>\<open>bind\<close> on a socket that has
  an address already raises one (\<^verbatim>\<open>EINVAL\<close>): a socket has an address when \<^verbatim>\<open>bind\<close>
  succeeded on it, and when it listens or is connected.
\<close>

definition sock_connect :: "nat \<Rightarrow> string \<Rightarrow> nat \<Rightarrow> state \<Rightarrow> unit res option" where
  "sock_connect fd ip prt s =
     (case sockets s fd of
        None \<Rightarrow> Some (Exc (OSError OtherOSError) s)
      | Some so \<Rightarrow>
          if listening so \<or> link so \<noteq> None then Some (Exc (OSError OtherOSError) s)
          else
            (case connects s of
               [] \<Rightarrow> Some (Exc (OSError ConnectionError) s)
             | ConnectFails e # rest \<Rightarrow> Some (Exc (OSError e) (s\<lparr>connects := rest\<rparr>))
             | Connects c # rest \<Rightarrow>
                 Some (Ret () (s\<lparr>connects := rest,
                                  sockets := (sockets s)(fd \<mapsto> so\<lparr>link := Some c\<rparr>),
                                  trace := trace s @ [EvConnect fd ip prt]\<rparr>))))"

definition sock_bind :: "nat \<Rightarrow> nat \<Rightarrow> state \<Rightarrow> unit res option" where
  "sock_bind fd prt s =
     (case sockets s fd of
        None \<Rightarrow> Some (Exc (OSError OtherOSError) s)
      | Some so \<Rightarrow>
          if bound so \<or> listening so \<or> link so \<noteq> None then Some (Exc (OSError OtherOSError) s)
          else
            (case binds s of
               Some e # rest \<Rightarrow> Some (Exc (OSError e) (s\<lparr>binds := rest\<rparr>))
             | _ \<Rightarrow>
                 Some (Ret () (s\<lparr>sockets := (sockets s)(fd \<mapsto> so\<lparr>bound := True\<rparr>),
                                  binds := tl (binds s),
                                  trace := trace s @ [EvBind fd prt]\<rparr>))))"

definition sock_listen :: "nat \<Rightarrow> nat \<Rightarrow> state \<Rightarrow> unit res option" where
  "sock_listen fd backlog s =
     (case sockets s fd of
        None \<Rightarrow> Some (Exc (OSError OtherOSError) s)
      | Some so \<Rightarrow>
          (case listens s of
             Some e # rest \<Rightarrow> Some (Exc (OSError e) (s\<lparr>listens := rest\<rparr>))
           | _ \<Rightarrow>
               Some (Ret () (s\<lparr>listens := tl (listens s),
                                sockets := (sockets s)(fd \<mapsto> so\<lparr>listening := True\<rparr>),
                                trace := trace s @ [EvListen fd backlog]\<rparr>))))"

text \<open>
  \<^verbatim>\<open>accept\<close> returns a new socket, which carries the connection. The program calls it
  only on a socket on which \<^verbatim>\<open>listen\<close> has succeeded, and its outcome is the script's.
\<close>

definition sock_accept :: "nat \<Rightarrow> state \<Rightarrow> nat res option" where
  "sock_accept fd s =
     (case sockets s fd of
        None \<Rightarrow> Some (Exc (OSError OtherOSError) s)
      | Some so \<Rightarrow>
          (case accepts s of
             [] \<Rightarrow> (case timeout so of None \<Rightarrow> None | Some _ \<Rightarrow> Some (Exc (OSError TimeoutError) s))
           | AcceptFails e # rest \<Rightarrow> Some (Exc (OSError e) (s\<lparr>accepts := rest\<rparr>))
           | Accepts c # rest \<Rightarrow>
               Some (Ret (next_fd s)
                 (s\<lparr>accepts := rest,
                    sockets := (sockets s)(next_fd s \<mapsto> \<lparr>timeout = None, bound = False, listening = False, link = Some c\<rparr>),
                    next_fd := Suc (next_fd s),
                    trace := trace s @ [EvAccept fd]\<rparr>))))"

text \<open>
  What \<^verbatim>\<open>recv(n)\<close>, for \<open>n\<close> above 0, takes from the stream: at most \<open>n\<close> bytes of the
  first segment; no bytes at the end of the stream, which stays at its end; the error
  that arrived; and no return when nothing arrives any more.
\<close>

fun chan_recv :: "nat \<Rightarrow> rx list \<Rightarrow> ((oserror + bytes) \<times> rx list) option" where
  "chan_recv n [] = None"
| "chan_recv n (Seg bs # rest) =
     (if bs = [] then chan_recv n rest
      else Some (Inr (take n bs), if drop n bs = [] then rest else Seg (drop n bs) # rest))"
| "chan_recv n (Eof # rest) = Some (Inr [], Eof # rest)"
| "chan_recv n (RxErr e # rest) = Some (Inl e, rest)"

text \<open>
  The connection of \<^verbatim>\<open>self.conn_sock\<close>: \<^verbatim>\<open>None\<close> has no method \<^verbatim>\<open>recv\<close>, and a socket
  that is not connected raises an \<^verbatim>\<open>OSError\<close>. \<^verbatim>\<open>recv(0)\<close> does not reach the socket: it
  returns no bytes at once, whatever the state of the connection.
\<close>

definition the_conn :: "state \<Rightarrow> nat option \<Rightarrow> exn + nat \<times> socket \<times> conn" where
  "the_conn s cs =
     (case cs of
        None \<Rightarrow> Inl AttributeError
      | Some fd \<Rightarrow>
          (case sockets s fd of
             None \<Rightarrow> Inl (OSError OtherOSError)
           | Some so \<Rightarrow>
               (case link so of
                  None \<Rightarrow> Inl (OSError OtherOSError)
                | Some c \<Rightarrow> Inr (fd, so, c))))"

definition sock_recv :: "nat option \<Rightarrow> nat \<Rightarrow> state \<Rightarrow> bytes res option" where
  "sock_recv cs n s =
     (case cs of
        None \<Rightarrow> Some (Exc AttributeError s)
      | Some fd0 \<Rightarrow>
          if n = 0 then Some (Ret [] (s\<lparr>trace := trace s @ [EvRecv fd0 0 []]\<rparr>))
          else
            (case the_conn s cs of
               Inl x \<Rightarrow> Some (Exc x s)
             | Inr (fd, so, c) \<Rightarrow>
                 (case chan_recv n (inbound c) of
                    None \<Rightarrow>
                      (case timeout so of
                         None \<Rightarrow> None
                       | Some _ \<Rightarrow> Some (Exc (OSError TimeoutError) s))
                  | Some (Inl e, rest) \<Rightarrow>
                      Some (Exc (OSError e)
                        (s\<lparr>sockets := (sockets s)(fd \<mapsto> so\<lparr>link := Some (c\<lparr>inbound := rest\<rparr>)\<rparr>)\<rparr>))
                  | Some (Inr bs, rest) \<Rightarrow>
                      Some (Ret bs
                        (s\<lparr>sockets := (sockets s)(fd \<mapsto> so\<lparr>link := Some (c\<lparr>inbound := rest\<rparr>)\<rparr>),
                           trace := trace s @ [EvRecv fd n bs]\<rparr>)))))"

text \<open>
  \<^verbatim>\<open>send(bs)\<close> and \<^verbatim>\<open>sendfile(f)\<close>, \<open>ev\<close> being the event of the call: all of the
  bytes are sent, or the call raises.
\<close>

definition sock_tx :: "nat option \<Rightarrow> (nat \<Rightarrow> event) \<Rightarrow> state \<Rightarrow> unit res option" where
  "sock_tx cs ev s =
     (case the_conn s cs of
        Inl x \<Rightarrow> Some (Exc x s)
      | Inr (fd, so, c) \<Rightarrow>
          (case outbound c of
             TxErr e # rest \<Rightarrow>
               Some (Exc (OSError e)
                 (s\<lparr>sockets := (sockets s)(fd \<mapsto> so\<lparr>link := Some (c\<lparr>outbound := rest\<rparr>)\<rparr>)\<rparr>))
           | _ \<Rightarrow>
               Some (Ret ()
                 (s\<lparr>sockets := (sockets s)(fd \<mapsto> so\<lparr>link := Some (c\<lparr>outbound := tl (outbound c)\<rparr>)\<rparr>),
                    trace := trace s @ [ev fd]\<rparr>))))"

definition sock_send :: "nat option \<Rightarrow> bytes \<Rightarrow> state \<Rightarrow> unit res option" where
  "sock_send cs bs s = sock_tx cs (\<lambda>fd. EvSend fd bs) s"

definition sock_sendfile :: "nat option \<Rightarrow> bytes \<Rightarrow> state \<Rightarrow> unit res option" where
  "sock_sendfile cs bs s = sock_tx cs (\<lambda>fd. EvSendfile fd bs) s"

section \<open>Peer\<close>

subsection \<open>Bootstrap\<close>

definition run_as_client :: "state \<Rightarrow> unit res option" where
  "run_as_client s =
     catch_io
       (bind_io (sock_connect (sock s) (peer_ip s) (port s) s) (\<lambda>_ s.
          Some (Ret () (s\<lparr>conn_sock := Some (sock s), mode := 1\<rparr>))))
       is_OSError
       (\<lambda>s. Some (Ret () s))"

definition run_as_server :: "state \<Rightarrow> unit res option" where
  "run_as_server s =
     catch_io
       (bind_io (sock_bind (sock s) (port s) s) (\<lambda>_ s.
        bind_io (sock_listen (sock s) 2 s) (\<lambda>_ s.
        bind_io (sock_accept (sock s) s) (\<lambda>fd s.
          Some (Ret () (s\<lparr>conn_sock := Some fd, mode := 2\<rparr>))))))
       is_OSError
       (\<lambda>s. Some (Ret () s))"

partial_function (option) start :: "state \<Rightarrow> unit res option" where
  "start s =
     (if mode s = 0 then
        bind_io (run_as_client s) (\<lambda>_ s.
        bind_io (if mode s \<noteq> 1 then run_as_server s else Some (Ret () s)) (\<lambda>_ s.
          start s))
      else Some (Ret () s))"

text \<open>
  \<^verbatim>\<open>Peer.__init__\<close>: the assignments to the attributes, which make the recorder and the
  socket, and then the call of \<^verbatim>\<open>__start\<close>.
\<close>

definition Peer_attributes :: "string \<Rightarrow> nat \<Rightarrow> nat \<Rightarrow> state \<Rightarrow> unit res option" where
  "Peer_attributes ip prt bufsize s =
     bind_io (Recorder_init (s\<lparr>peer_ip := ip, port := prt, receive_buffer_size := bufsize\<rparr>)) (\<lambda>_ s.
     bind_io (socket_socket s) (\<lambda>fd s.
       Some (Ret () (s\<lparr>sock := fd, conn_sock := None, mode := 0\<rparr>))))"

definition Peer_init :: "string \<Rightarrow> nat \<Rightarrow> nat \<Rightarrow> state \<Rightarrow> unit res option" where
  "Peer_init ip prt bufsize s =
     bind_io (Peer_attributes ip prt bufsize s) (\<lambda>_ s. start s)"

subsection \<open>Send\<close>

text \<open>The body of the loop over \<^verbatim>\<open>unsent_files\<close>, and the loop.\<close>

definition send_file :: "path \<Rightarrow> state \<Rightarrow> unit res option" where
  "send_file p s0 =
     bind_io (Some (Ret () (set_ownership p True s0))) (\<lambda>_ s.
     bind_io (pure_io (encode p) s) (\<lambda>path_bin s.
     bind_io (pure_io (os_path_getsize s p) s) (\<lambda>file_size s.
     bind_io (pure_io (header_pack (length path_bin) file_size) s) (\<lambda>header s.
     bind_io (sock_send (conn_sock s) (header @ path_bin) s) (\<lambda>_ s.
     bind_io (pure_io (read_rb s p) s) (\<lambda>f s.
     bind_io (sock_sendfile (conn_sock s) f s) (\<lambda>_ s.
       step_io (add_rec p s) s)))))))"

primrec send_files :: "path list \<Rightarrow> state \<Rightarrow> unit res option" where
  "send_files [] = (\<lambda>s. Some (Ret () s))"
| "send_files (p # ps) = (\<lambda>s. bind_io (send_file p s) (\<lambda>_. send_files ps))"

definition send :: "state \<Rightarrow> unit res option" where
  "send s0 =
     bind_io (pure_io (get_unsent_files s0) s0) (\<lambda>unsent_files s.
     bind_io (send_files unsent_files s) (\<lambda>_ s.
     bind_io (pure_io (header_pack 0 0) s) (\<lambda>header s.
       sock_send (conn_sock s) header s)))"

subsection \<open>Receive\<close>

text \<open>The loop that reads the content of the file at \<open>p\<close>, opened for writing.\<close>

partial_function (option) receive_payload :: "path \<Rightarrow> nat \<Rightarrow> nat \<Rightarrow> state \<Rightarrow> unit res option" where
  "receive_payload p file_size received_bytes s =
     (if received_bytes < file_size then
        bind_io (sock_recv (conn_sock s) (min (file_size - received_bytes) (receive_buffer_size s)) s)
          (\<lambda>bytes_read s.
             receive_payload p file_size (received_bytes + length bytes_read) (file_write p bytes_read s))
      else Some (Ret () s))"

text \<open>
  The body of \<^verbatim>\<open>try\<close> in the loop of \<^verbatim>\<open>__receive\<close>; it returns the new value of
  \<^verbatim>\<open>more_files\<close>.
\<close>

definition receive_file :: "nat \<Rightarrow> nat \<Rightarrow> state \<Rightarrow> bool res option" where
  "receive_file path_size file_size s0 =
     bind_io (sock_recv (conn_sock s0) path_size s0) (\<lambda>path_bin s.
     bind_io (pure_io (decode path_bin) s) (\<lambda>p s.
     bind_io (Some (Ret () (set_ownership p False (del_rec p s)))) (\<lambda>_ s.
     bind_io (if \<not> os_path_exists s (rsplit_head p) then step_io (os_mkdir (rsplit_head p) s) s
              else Some (Ret () s)) (\<lambda>_ s.
     bind_io (step_io (open_wb p s) s) (\<lambda>_ s.
     bind_io (receive_payload p file_size 0 s) (\<lambda>_ s.
     bind_io (step_io (add_rec p s) s) (\<lambda>_ s.
       Some (Ret True s))))))))"

definition receive_frame :: "state \<Rightarrow> bool res option" where
  "receive_frame s0 =
     bind_io (sock_recv (conn_sock s0) header_size s0) (\<lambda>header_info s.
     bind_io (pure_io (header_unpack header_info) s) (\<lambda>(path_size, file_size) s.
       if path_size = file_size \<and> file_size = 0 then Some (Ret False s)
       else receive_file path_size file_size s))"

partial_function (option) receive :: "state \<Rightarrow> unit res option" where
  "receive s =
     bind_io (catch_io (receive_frame s) is_struct_error (\<lambda>s. Some (Ret False s))) (\<lambda>more_files s.
       if more_files then receive s else Some (Ret () s))"

subsection \<open>Resume and the sync loop\<close>

definition resume :: "state \<Rightarrow> unit res option" where
  "resume s0 =
     (if mode s0 = 2 then
        bind_io (sock_accept (sock s0) s0) (\<lambda>fd s. Some (Ret () (s\<lparr>conn_sock := Some fd\<rparr>)))
      else
        bind_io (socket_socket s0) (\<lambda>fd s.
        bind_io (run_as_server (s\<lparr>sock := fd\<rparr>)) (\<lambda>_ s.
          if mode s \<noteq> 2 then start (s\<lparr>mode := 0\<rparr>) else Some (Ret () s))))"

text \<open>The body of \<^verbatim>\<open>try\<close> in \<^verbatim>\<open>sync\<close>, and the loop around it.\<close>

definition sync_body :: "state \<Rightarrow> unit res option" where
  "sync_body s0 =
     (if mode s0 = 2 then
        bind_io (sock_recv (conn_sock s0) 1 s0) (\<lambda>b s.
        bind_io (pure_io (decode b) s) (\<lambda>cmd s.
          if cmd = ''s'' then send s
          else if cmd = ''r'' then receive s
          else Some (Ret () s)))
      else if mode s0 = 1 then
        bind_io (sock_send (conn_sock s0) ''s'' s0) (\<lambda>_ s.
        bind_io (receive s) (\<lambda>_ s.
        bind_io (sock_send (conn_sock s) ''r'' s) (\<lambda>_ s.
          send s)))
      else Some (Ret () s0))"

partial_function (option) sync :: "state \<Rightarrow> unit res option" where
  "sync s =
     bind_io (catch_io (sync_body s) is_ConnectionError resume) (\<lambda>_ s. sync s)"

section \<open>What is observed\<close>

text \<open>The bytes that the calls of \<^verbatim>\<open>recv\<close> returned, in order.\<close>

fun recv_bytes :: "event list \<Rightarrow> bytes" where
  "recv_bytes [] = []"
| "recv_bytes (EvRecv fd n bs # evs) = bs @ recv_bytes evs"
| "recv_bytes (_ # evs) = recv_bytes evs"

text \<open>The stream of \<^verbatim>\<open>self.conn_sock\<close> is at its end: the peer has closed.\<close>

definition at_eof :: "state \<Rightarrow> bool" where
  "at_eof s =
     (case the_conn s (conn_sock s) of
        Inr (fd, so, c) \<Rightarrow> (case inbound c of Eof # _ \<Rightarrow> True | _ \<Rightarrow> False)
      | Inl _ \<Rightarrow> False)"

text \<open>The bytes that arrive before the stream ends, fails or runs dry.\<close>

fun stream :: "rx list \<Rightarrow> bytes" where
  "stream [] = []"
| "stream (Seg bs # rest) = bs @ stream rest"
| "stream (Eof # rest) = []"
| "stream (RxErr e # rest) = []"


text \<open>
  What the script holds for the next \<^verbatim>\<open>bind\<close>, \<^verbatim>\<open>listen\<close> and \<^verbatim>\<open>accept\<close>: the call
  succeeds, or raises. An attempt to become the server fails when one of the three
  raises.
\<close>

definition bind_ok :: "state \<Rightarrow> bool" where
  "bind_ok s = (case binds s of Some e # _ \<Rightarrow> False | _ \<Rightarrow> True)"

definition listen_ok :: "state \<Rightarrow> bool" where
  "listen_ok s = (case listens s of Some e # _ \<Rightarrow> False | _ \<Rightarrow> True)"

definition accept_fails :: "state \<Rightarrow> bool" where
  "accept_fails s = (case accepts s of AcceptFails e # _ \<Rightarrow> True | _ \<Rightarrow> False)"

definition attempt_fails :: "state \<Rightarrow> bool" where
  "attempt_fails s = (\<not> bind_ok s \<or> \<not> listen_ok s \<or> accept_fails s)"

text \<open>
  The state in which \<^verbatim>\<open>resume\<close>, called in client mode, tries to become the server:
  \<^verbatim>\<open>self.sock\<close> is a new socket.
\<close>

definition fresh_sock :: "state \<Rightarrow> state" where
  "fresh_sock s =
     s\<lparr>sockets := (sockets s)(next_fd s \<mapsto> \<lparr>timeout = None, bound = False, listening = False, link = None\<rparr>),
       next_fd := Suc (next_fd s),
       trace := trace s @ [EvSocket (next_fd s)],
       sock := next_fd s\<rparr>"



fun sent_bytes :: "event list \<Rightarrow> bytes" where
  "sent_bytes [] = []"
| "sent_bytes (EvSend fd bs # evs) = bs @ sent_bytes evs"
| "sent_bytes (EvSendfile fd bs # evs) = bs @ sent_bytes evs"
| "sent_bytes (_ # evs) = sent_bytes evs"




section \<open>Concrete states\<close>

text \<open>
  A peer that has nothing: no record, an empty disk, no socket, and a network on which
  nothing happens. The states the theorems are tried on are built from it.
\<close>

definition idle :: state where
  "idle =
     \<lparr>recorder_record = Map.empty, peer_ip = ''10.0.0.2'', port = 23333,
      receive_buffer_size = 104857600, sock = 0, conn_sock = None, mode = 0,
      sync_record_json = Missing, nodes = Map.empty, walk = (\<lambda>_. []), clock = 0,
      sockets = Map.empty, next_fd = 0, connects = [], binds = [], listens = [],
      accepts = [], trace = []\<rparr>"

text \<open>
  \<^verbatim>\<open>./share/a.txt\<close> was being sent when the connection broke: its record has the
  ownership and no modification time.
\<close>

definition half_sent :: state where
  "half_sent =
     idle\<lparr>recorder_record := [''./share/a.txt'' \<mapsto> \<lparr>ownership = Some True, mtime = None\<rparr>],
          nodes := [''./share'' \<mapsto> Dir 1, ''./share/a.txt'' \<mapsto> File ''hi'' 5]\<rparr>"

text \<open>
  A client whose socket 0 is connected; \<open>rxs\<close> is what arrives on the connection.
\<close>

definition receiving :: "rx list \<Rightarrow> state" where
  "receiving rxs =
     idle\<lparr>mode := 1, conn_sock := Some 0, next_fd := 1,
          sockets := [0 \<mapsto> \<lparr>timeout = None, bound = False, listening = False,
                             link = Some \<lparr>inbound = rxs, outbound = []\<rparr>\<rparr>]\<rparr>"


text \<open>
  A server with a client: socket 0 listens, socket 1 carries the connection, on which
  \<open>rxs\<close> arrives.
\<close>

definition serving :: "rx list \<Rightarrow> state" where
  "serving rxs =
     idle\<lparr>mode := 2, sock := 0, conn_sock := Some 1, next_fd := 2,
          sockets := [0 \<mapsto> \<lparr>timeout = None, bound = True, listening = True, link = None\<rparr>,
                      1 \<mapsto> \<lparr>timeout = None, bound = False, listening = False,
                             link = Some \<lparr>inbound = rxs, outbound = []\<rparr>\<rparr>]\<rparr>"




text \<open>
  A client to which one frame is sent, the file \<^verbatim>\<open>./share/ab.txt\<close> with the content
  \<^verbatim>\<open>hi\<close>, and then the terminator; the 14 bytes of the path arrive in two segments.
\<close>

definition split_path :: state where
  "split_path =
     (receiving [Seg (pack_u32 14 @ pack_u32 2), Seg ''./share/ab'', Seg ''.txt'', Seg ''hi'',
                 Seg (pack_u32 0 @ pack_u32 0)])
       \<lparr>nodes := [''.'' \<mapsto> Dir 0, ''./share'' \<mapsto> Dir 0]\<rparr>"

text \<open>
  The state in which the constructor of \<^verbatim>\<open>Peer\<close> calls \<^verbatim>\<open>__start\<close>, when it is run
  in \<open>idle\<close>: the record is empty and socket 0 is new, as \<^verbatim>\<open>socket.socket\<close> made it.
\<close>

definition booting :: state where
  "booting =
     idle\<lparr>sockets := [0 \<mapsto> \<lparr>timeout = None, bound = False, listening = False, link = None\<rparr>],
          next_fd := 1, trace := [EvSocket 0]\<rparr>"

text \<open>A peer whose record file holds bytes that are not text.\<close>

definition unreadable_record :: state where
  "unreadable_record = idle\<lparr>sync_record_json := Undecodable\<rparr>"

section \<open>The monad\<close>

lemma bind_io_simps [simp]:
  "bind_io None k = None"
  "bind_io (Some (Ret a s)) k = k a s"
  "bind_io (Some (Exc e s)) k = Some (Exc e s)"
  by (simp_all add: bind_io_def)

lemma catch_io_simps [simp]:
  "catch_io None handles h = None"
  "catch_io (Some (Ret a s)) handles h = Some (Ret a s)"
  "catch_io (Some (Exc e s)) handles h = (if handles e then h s else Some (Exc e s))"
  by (simp_all add: catch_io_def)

lemma pure_io_simps [simp]:
  "pure_io (Inl e) s = Some (Exc e s)"
  "pure_io (Inr a) s = Some (Ret a s)"
  by (simp_all add: pure_io_def)

lemma step_io_simps [simp]:
  "step_io (Inl e) s = Some (Exc e s)"
  "step_io (Inr s') s = Some (Ret () s')"
  by (simp_all add: step_io_def)

section \<open>Recorder: which files are unsent\<close>

text \<open>
  C1. A directory is never unsent. A path that is not a directory is unsent exactly
  when it has no record, or its record has a modification time and the file's current
  one differs from it, or its record has no modification time and its ownership is
  true; in the last case the stored ownership is what is returned. (When the record
  has a modification time and the file is gone, or the record has neither key, the
  call raises and returns nothing.)
\<close>

theorem is_unsent_rule:
  "(os_path_isdir s p \<longrightarrow> is_unsent s p = Inr False) \<and>
   (\<not> os_path_isdir s p \<longrightarrow>
      (is_unsent s p = Inr True) =
        (recorder_record s p = None
         \<or> (\<exists>e t t'. recorder_record s p = Some e \<and> mtime e = Some t
               \<and> os_path_getmtime s p = Inr t' \<and> t' \<noteq> t)
         \<or> (\<exists>e. recorder_record s p = Some e \<and> mtime e = None \<and> ownership e = Some True))) \<and>
   (\<forall>e b. \<not> os_path_isdir s p \<and> recorder_record s p = Some e \<and> mtime e = None
        \<and> ownership e = Some b \<longrightarrow> is_unsent s p = Inr b)"
  by (auto simp: is_unsent_def split: option.splits sum.splits)

theorem is_unsent_rule_witness:
  "\<not> os_path_isdir half_sent ''./share/a.txt''
   \<and> recorder_record half_sent ''./share/a.txt'' = Some \<lparr>ownership = Some True, mtime = None\<rparr>
   \<and> is_unsent half_sent ''./share/a.txt'' = Inr True
   \<and> os_path_isdir half_sent ''./share''
   \<and> is_unsent half_sent ''./share'' = Inr False"
  using is_unsent_rule [of half_sent "''./share/a.txt''"] is_unsent_rule [of half_sent "''./share''"]
  by (simp add: half_sent_def idle_def os_path_isdir_def)

section \<open>Recorder: construction\<close>

text \<open>
  C8, as the code has it. When \<^verbatim>\<open>./sync_record.json\<close> is missing, or holds text that
  is not JSON (\<^verbatim>\<open>json.load\<close> raises \<^verbatim>\<open>json.JSONDecodeError\<close>), the constructor of the
  recorder returns, with an empty record and everything else as it was: the file is not
  written.
\<close>

theorem Recorder_init_empty:
  "sync_record_json s = Missing \<or> sync_record_json s = Garbage \<Longrightarrow>
   Recorder_init s = Some (Ret () (s\<lparr>recorder_record := Map.empty\<rparr>))"
  by (auto simp: Recorder_init_def json_load_def)

theorem Recorder_init_empty_witness:
  "sync_record_json (half_sent\<lparr>sync_record_json := Garbage\<rparr>) = Garbage \<and>
   Recorder_init (half_sent\<lparr>sync_record_json := Garbage\<rparr>) =
     Some (Ret () (half_sent\<lparr>sync_record_json := Garbage, recorder_record := Map.empty\<rparr>))"
  using Recorder_init_empty [of "half_sent\<lparr>sync_record_json := Garbage\<rparr>"]
  by simp

text \<open>
  C8, as stated, fails: a record file whose bytes are not text does not parse as JSON
  either, but what reading it raises is \<^verbatim>\<open>UnicodeDecodeError\<close>, which the handler does
  not name. The constructor raises it.
\<close>

theorem Recorder_init_raises:
  "Recorder_init unreadable_record = Some (Exc UnicodeDecodeError unreadable_record)"
  by (simp add: Recorder_init_def json_load_def unreadable_record_def)

section \<open>Receive: the loop that reads the content of a file\<close>

lemma recv_bytes_append [simp]: "recv_bytes (xs @ ys) = recv_bytes xs @ recv_bytes ys"
  by (induction xs rule: recv_bytes.induct) simp_all

lemma chan_recv_length:
  "chan_recv n rx = Some (Inr bs, rest) \<Longrightarrow> length bs \<le> n"
  by (induction n rx rule: chan_recv.induct) (auto split: if_splits)

lemma the_conn_fd: "the_conn s cs = Inr (fd, so, c) \<Longrightarrow> cs = Some fd"
  by (auto simp: the_conn_def split: option.splits)

lemma sock_recv_pos:
  assumes "0 < n" and "the_conn s cs = Inr (fd, so, c)"
  shows "sock_recv cs n s =
     (case chan_recv n (inbound c) of
        None \<Rightarrow> (case timeout so of None \<Rightarrow> None | Some _ \<Rightarrow> Some (Exc (OSError TimeoutError) s))
      | Some (Inl e, rest) \<Rightarrow>
          Some (Exc (OSError e)
            (s\<lparr>sockets := (sockets s)(fd \<mapsto> so\<lparr>link := Some (c\<lparr>inbound := rest\<rparr>)\<rparr>)\<rparr>))
      | Some (Inr bs, rest) \<Rightarrow>
          Some (Ret bs
            (s\<lparr>sockets := (sockets s)(fd \<mapsto> so\<lparr>link := Some (c\<lparr>inbound := rest\<rparr>)\<rparr>),
               trace := trace s @ [EvRecv fd n bs]\<rparr>)))"
proof -
  from the_conn_fd [OF assms(2)] have "cs = Some fd" .
  with assms show ?thesis by (simp add: sock_recv_def)
qed

lemma sock_recv_zero:
  "sock_recv (Some fd) 0 s = Some (Ret [] (s\<lparr>trace := trace s @ [EvRecv fd 0 []]\<rparr>))"
  by (simp add: sock_recv_def)

lemma sock_recv_RetD:
  assumes "sock_recv cs n s = Some (Ret bs s1)" and "0 < n"
  shows "\<exists>fd so c rest.
     the_conn s cs = Inr (fd, so, c) \<and>
     chan_recv n (inbound c) = Some (Inr bs, rest) \<and>
     s1 = s\<lparr>sockets := (sockets s)(fd \<mapsto> so\<lparr>link := Some (c\<lparr>inbound := rest\<rparr>)\<rparr>),
            trace := trace s @ [EvRecv fd n bs]\<rparr>"
  using assms
  by (auto simp: sock_recv_def split: sum.splits option.splits prod.splits)

lemma sock_recv_length:
  assumes "sock_recv cs n s = Some (Ret bs s1)"
  shows "length bs \<le> n \<and> (\<exists>fd. trace s1 = trace s @ [EvRecv fd n bs])"
proof (cases "n = 0")
  case True
  with assms show ?thesis by (auto simp: sock_recv_def split: option.splits)
next
  case False
  then have "0 < n" by simp
  from sock_recv_RetD [OF assms this] obtain fd so c rest where
    ch: "chan_recv n (inbound c) = Some (Inr bs, rest)" and
    s1: "s1 = s\<lparr>sockets := (sockets s)(fd \<mapsto> so\<lparr>link := Some (c\<lparr>inbound := rest\<rparr>)\<rparr>),
            trace := trace s @ [EvRecv fd n bs]\<rparr>"
    by blast
  from chan_recv_length [OF ch] s1 show ?thesis by simp
qed

lemma bind_io_Some:
  "bind_io m k = Some y \<Longrightarrow>
     (\<exists>e s. m = Some (Exc e s) \<and> y = Exc e s) \<or> (\<exists>a s. m = Some (Ret a s) \<and> k a s = Some y)"
  by (auto simp: bind_io_def split: option.splits res.splits)

lemma receive_payload_count_aux:
  assumes "receive_payload p file_size received_bytes s = Some y"
  shows "\<forall>u s'. y = Ret u s' \<longrightarrow>
           (\<exists>data. recv_bytes (trace s') = recv_bytes (trace s) @ data
              \<and> length data = file_size - received_bytes)"
  using assms
proof (induction rule: receive_payload.raw_induct [rotated 1, consumes 1])
  case (1 loop p file_size received_bytes s y)
  show ?case
  proof (cases "received_bytes < file_size")
    case False
    with 1(2) show ?thesis by auto
  next
    case True
    let ?n = "min (file_size - received_bytes) (receive_buffer_size s)"
    from 1(2) True have
      b: "bind_io (sock_recv (conn_sock s) ?n s)
            (\<lambda>bytes_read s. loop p file_size (received_bytes + length bytes_read)
               (file_write p bytes_read s)) = Some y"
      by simp
    show ?thesis
    proof (intro allI impI)
      fix u s' assume y: "y = Ret u s'"
      from bind_io_Some [OF b] y obtain br s1 where
        r: "sock_recv (conn_sock s) ?n s = Some (Ret br s1)" and
        l: "loop p file_size (received_bytes + length br) (file_write p br s1) = Some y"
        by auto
      from sock_recv_length [OF r] obtain fd where
        ln: "length br \<le> ?n" and s1: "trace s1 = trace s @ [EvRecv fd ?n br]"
        by blast
      from ln have le: "length br \<le> file_size - received_bytes"
        by simp
      from 1(1) [OF l] y obtain data where
        d: "recv_bytes (trace s') = recv_bytes (trace (file_write p br s1)) @ data"
           "length data = file_size - (received_bytes + length br)"
        by blast
      have "recv_bytes (trace s') = recv_bytes (trace s) @ (br @ data)"
        using d(1) s1 by (simp add: file_write_def)
      moreover have "length (br @ data) = file_size - received_bytes"
        using d(2) le by simp
      ultimately show "\<exists>data. recv_bytes (trace s') = recv_bytes (trace s) @ data
          \<and> length data = file_size - received_bytes"
        by blast
    qed
  qed
qed

lemma at_eofD:
  assumes "at_eof s"
  shows "\<exists>fd so c rest. the_conn s (conn_sock s) = Inr (fd, so, c) \<and> inbound c = Eof # rest"
proof (cases "the_conn s (conn_sock s)")
  case (Inl x)
  with assms show ?thesis by (simp add: at_eof_def)
next
  case (Inr t)
  obtain fd so c where t: "t = (fd, so, c)" by (cases t)
  show ?thesis
  proof (cases "inbound c")
    case Nil
    with assms Inr t show ?thesis by (simp add: at_eof_def)
  next
    case (Cons x rest)
    with assms Inr t show ?thesis by (cases x) (simp_all add: at_eof_def)
  qed
qed

lemma at_eof_recv:
  assumes "at_eof s"
  shows "\<exists>fd. sock_recv (conn_sock s) n s = Some (Ret [] (s\<lparr>trace := trace s @ [EvRecv fd n []]\<rparr>))"
proof -
  from at_eofD [OF assms] obtain fd so c rest where
    c: "the_conn s (conn_sock s) = Inr (fd, so, c)" and i: "inbound c = Eof # rest"
    by blast
  from c have so: "sockets s fd = Some so" "link so = Some c"
    by (auto simp: the_conn_def split: option.splits)
  from the_conn_fd [OF c] have cs: "conn_sock s = Some fd" .
  show ?thesis
  proof (cases "n = 0")
    case True
    with cs show ?thesis by (intro exI [of _ fd]) (simp add: sock_recv_zero)
  next
    case False
    have e1: "c\<lparr>inbound := Eof # rest\<rparr> = c" using i by simp
    have e2: "so\<lparr>link := Some c\<rparr> = so" using so(2) by simp
    have e3: "(sockets s)(fd \<mapsto> so) = sockets s" using so(1) by (simp add: map_upd_triv)
    have r: "sock_recv (conn_sock s) n s =
        Some (Ret [] (s\<lparr>sockets := (sockets s)(fd \<mapsto> so\<lparr>link := Some (c\<lparr>inbound := Eof # rest\<rparr>)\<rparr>),
                         trace := trace s @ [EvRecv fd n []]\<rparr>))"
      using False i by (simp add: sock_recv_pos [OF _ c])
    have "s\<lparr>sockets := (sockets s)(fd \<mapsto> so\<lparr>link := Some (c\<lparr>inbound := Eof # rest\<rparr>)\<rparr>),
            trace := trace s @ [EvRecv fd n []]\<rparr> = s\<lparr>trace := trace s @ [EvRecv fd n []]\<rparr>"
      by (simp only: e1 e2 e3) simp
    with r show ?thesis by (intro exI [of _ fd]) simp
  qed
qed

lemma file_write_fields [simp]:
  "conn_sock (file_write p bs s) = conn_sock s"
  "receive_buffer_size (file_write p bs s) = receive_buffer_size s"
  "sockets (file_write p bs s) = sockets s"
  "recorder_record (file_write p bs s) = recorder_record s"
  "mode (file_write p bs s) = mode s"
  "sock (file_write p bs s) = sock s"
  "trace (file_write p bs s) = trace s @ [EvWrite p bs]"
  by (simp_all add: file_write_def)

lemma the_conn_frame [simp]:
  "the_conn (file_write p bs s) cs = the_conn s cs"
  "the_conn (s\<lparr>trace := t\<rparr>) cs = the_conn s cs"
  by (simp_all add: the_conn_def file_write_def split: option.splits)

lemma at_eof_frame [simp]:
  "at_eof (file_write p bs s) = at_eof s"
  "at_eof (s\<lparr>trace := t\<rparr>) = at_eof s"
  by (simp_all add: at_eof_def)

lemma receive_payload_eof_aux:
  assumes "receive_payload p file_size received_bytes s = Some y"
  shows "\<not> (at_eof s \<and> received_bytes < file_size)"
  using assms
proof (induction rule: receive_payload.raw_induct [rotated 1, consumes 1])
  case (1 loop p file_size received_bytes s y)
  show ?case
  proof
    assume a: "at_eof s \<and> received_bytes < file_size"
    let ?n = "min (file_size - received_bytes) (receive_buffer_size s)"
    from at_eof_recv [of s ?n] a obtain fd where
      r: "sock_recv (conn_sock s) ?n s = Some (Ret [] (s\<lparr>trace := trace s @ [EvRecv fd ?n []]\<rparr>))"
      by blast
    from 1(2) a r have
      "loop p file_size received_bytes (file_write p [] (s\<lparr>trace := trace s @ [EvRecv fd ?n []]\<rparr>)) = Some y"
      by simp
    from 1(1) [OF this] a show False by simp
  qed
qed

lemma receive_payload_eof:
  assumes "at_eof s" and "received_bytes < file_size"
  shows "receive_payload p file_size received_bytes s = None"
  using receive_payload_eof_aux [of p file_size received_bytes s] assms
  by (cases "receive_payload p file_size received_bytes s") auto

lemma chan_recv_stream:
  assumes "0 < n" and "stream rx \<noteq> []"
  shows "\<exists>bs rest. chan_recv n rx = Some (Inr bs, rest) \<and> bs \<noteq> [] \<and> length bs \<le> n
           \<and> stream rx = bs @ stream rest"
  using assms
proof (induction n rx rule: chan_recv.induct)
  case (2 n bs rest)
  show ?case
  proof (cases "bs = []")
    case True
    with 2 show ?thesis by simp
  next
    case False
    with 2(2) show ?thesis
      by (cases "drop n bs = []") (simp_all add: append_eq_conv_conj)
  qed
qed simp_all

lemma sock_recv_stream:
  assumes c: "the_conn s (conn_sock s) = Inr (fd, so, c)"
    and n: "0 < n" and a: "stream (inbound c) \<noteq> []"
  shows "\<exists>bs rest. bs \<noteq> [] \<and> length bs \<le> n \<and> stream (inbound c) = bs @ stream rest \<and>
     sock_recv (conn_sock s) n s =
       Some (Ret bs (s\<lparr>sockets := (sockets s)(fd \<mapsto> so\<lparr>link := Some (c\<lparr>inbound := rest\<rparr>)\<rparr>),
                        trace := trace s @ [EvRecv fd n bs]\<rparr>))"
proof -
  from chan_recv_stream [OF n a] obtain bs rest where
    r: "chan_recv n (inbound c) = Some (Inr bs, rest)" "bs \<noteq> []" "length bs \<le> n"
       "stream (inbound c) = bs @ stream rest"
    by blast
  then show ?thesis by (auto simp: sock_recv_pos [OF n c])
qed

lemma the_conn_after_recv:
  assumes "the_conn s (conn_sock s) = Inr (fd, so, c)"
  shows "the_conn (s\<lparr>sockets := (sockets s)(fd \<mapsto> so\<lparr>link := Some c'\<rparr>), trace := t\<rparr>)
           (conn_sock s) = Inr (fd, so\<lparr>link := Some c'\<rparr>, c')"
  using assms by (auto simp: the_conn_def split: option.splits)

lemma receive_payload_total:
  assumes "the_conn s (conn_sock s) = Inr (fd, so, c)"
    and "file_size - received_bytes \<le> length (stream (inbound c))"
    and "0 < receive_buffer_size s"
  shows "\<exists>s'. receive_payload p file_size received_bytes s = Some (Ret () s')
           \<and> recv_bytes (trace s') =
               recv_bytes (trace s) @ take (file_size - received_bytes) (stream (inbound c))"
  using assms
proof (induction "file_size - received_bytes" arbitrary: received_bytes s so c rule: less_induct)
  case less
  show ?case
  proof (cases "received_bytes < file_size")
    case False
    then show ?thesis by (subst receive_payload.simps) simp
  next
    case True
    let ?n = "min (file_size - received_bytes) (receive_buffer_size s)"
    have n: "0 < ?n" using True less.prems(3) by simp
    have a: "stream (inbound c) \<noteq> []" using True less.prems(2) by auto
    from sock_recv_stream [OF less.prems(1) n a] obtain bs rest where
      bs: "bs \<noteq> []" "length bs \<le> ?n" "stream (inbound c) = bs @ stream rest" and
      r: "sock_recv (conn_sock s) ?n s =
            Some (Ret bs (s\<lparr>sockets := (sockets s)(fd \<mapsto> so\<lparr>link := Some (c\<lparr>inbound := rest\<rparr>)\<rparr>),
                             trace := trace s @ [EvRecv fd ?n bs]\<rparr>))"
      by blast
    let ?s1 = "s\<lparr>sockets := (sockets s)(fd \<mapsto> so\<lparr>link := Some (c\<lparr>inbound := rest\<rparr>)\<rparr>),
                 trace := trace s @ [EvRecv fd ?n bs]\<rparr>"
    let ?s2 = "file_write p bs ?s1"
    have c2: "the_conn ?s2 (conn_sock ?s2) = Inr (fd, so\<lparr>link := Some (c\<lparr>inbound := rest\<rparr>)\<rparr>, c\<lparr>inbound := rest\<rparr>)"
      using the_conn_after_recv [OF less.prems(1), where c' = "c\<lparr>inbound := rest\<rparr>" and t = "trace s @ [EvRecv fd ?n bs]"]
      by simp
    have m: "file_size - (received_bytes + length bs) < file_size - received_bytes"
      using True bs(1) by (cases bs) simp_all
    have le: "file_size - (received_bytes + length bs) \<le> length (stream (inbound (c\<lparr>inbound := rest\<rparr>)))"
      using less.prems(2) bs(3) by simp
    have b: "0 < receive_buffer_size ?s2" using less.prems(3) by simp
    from less.hyps [OF m c2 le b] obtain s' where
      s': "receive_payload p file_size (received_bytes + length bs) ?s2 = Some (Ret () s')"
          "recv_bytes (trace s') =
             recv_bytes (trace ?s2) @ take (file_size - (received_bytes + length bs)) (stream rest)"
      by auto
    have t: "recv_bytes (trace ?s2) = recv_bytes (trace s) @ bs"
      by simp
    have k: "take (file_size - received_bytes) (stream (inbound c)) =
             bs @ take (file_size - (received_bytes + length bs)) (stream rest)"
      using bs(2,3) by simp
    have "receive_payload p file_size received_bytes s = Some (Ret () s')"
      by (subst receive_payload.simps) (simp add: True r s'(1))
    moreover have "recv_bytes (trace s') =
        recv_bytes (trace s) @ take (file_size - received_bytes) (stream (inbound c))"
      unfolding s'(2) t k by simp
    ultimately show ?thesis by blast
  qed
qed

lemma the_conn_receiving:
  "the_conn (receiving rxs) (conn_sock (receiving rxs)) =
     Inr (0, \<lparr>timeout = None, bound = False, listening = False, link = Some \<lparr>inbound = rxs, outbound = []\<rparr>\<rparr>,
          \<lparr>inbound = rxs, outbound = []\<rparr>)"
  by (simp add: receiving_def idle_def the_conn_def)

text \<open>
  C10. The loop that reads the content ends exactly when the count of received bytes
  has reached \<^verbatim>\<open>file_size\<close>: it returns at once when the count is not below
  \<^verbatim>\<open>file_size\<close>, and when it returns, the reads have returned \<^verbatim>\<open>file_size\<close> minus
  the initial count bytes in all. At the end of the stream \<^verbatim>\<open>recv\<close> returns no bytes;
  the loop then neither ends nor raises: it does not return.
\<close>

theorem receive_payload_ends:
  "(\<not> received_bytes < file_size \<longrightarrow>
      receive_payload p file_size received_bytes s = Some (Ret () s)) \<and>
   (\<forall>u s'. receive_payload p file_size received_bytes s = Some (Ret u s') \<longrightarrow>
      (\<exists>data. recv_bytes (trace s') = recv_bytes (trace s) @ data
         \<and> length data = file_size - received_bytes)) \<and>
   (at_eof s \<and> received_bytes < file_size \<longrightarrow>
      receive_payload p file_size received_bytes s = None)"
proof (intro conjI allI impI)
  assume "\<not> received_bytes < file_size"
  then show "receive_payload p file_size received_bytes s = Some (Ret () s)"
    by (subst receive_payload.simps) simp
next
  fix u s' assume "receive_payload p file_size received_bytes s = Some (Ret u s')"
  from receive_payload_count_aux [OF this]
  show "\<exists>data. recv_bytes (trace s') = recv_bytes (trace s) @ data
         \<and> length data = file_size - received_bytes"
    by blast
next
  assume "at_eof s \<and> received_bytes < file_size"
  then show "receive_payload p file_size received_bytes s = None"
    by (simp add: receive_payload_eof)
qed

theorem receive_payload_ends_witness:
  "at_eof (receiving [Eof]) \<and>
   receive_payload ''./share/a.txt'' 3 0 (receiving [Eof]) = None \<and>
   (\<exists>s'. receive_payload ''./share/a.txt'' 3 0 (receiving [Seg ''ab'', Seg ''c'']) = Some (Ret () s')
      \<and> length (recv_bytes (trace s')) = 3)"
proof -
  have e: "at_eof (receiving [Eof])"
    by (simp add: at_eof_def the_conn_receiving)
  have n: "receive_payload ''./share/a.txt'' 3 0 (receiving [Eof]) = None"
    using receive_payload_ends [of 0 3 "''./share/a.txt''" "receiving [Eof]"] e by simp
  from receive_payload_total [OF the_conn_receiving, of 3 0 "[Seg ''ab'', Seg ''c'']" "''./share/a.txt''"]
  obtain s' where
    r: "receive_payload ''./share/a.txt'' 3 0 (receiving [Seg ''ab'', Seg ''c'']) = Some (Ret () s')"
    by (auto simp: receiving_def idle_def)
  have t: "trace (receiving [Seg ''ab'', Seg ''c'']) = []"
    by (simp add: receiving_def idle_def)
  from receive_payload_ends [of 0 3 "''./share/a.txt''" "receiving [Seg ''ab'', Seg ''c'']"] r t
  have "length (recv_bytes (trace s')) = 3" by auto
  with e n r show ?thesis by blast
qed

section \<open>Receive: where the loop stops\<close>






















section \<open>Resume\<close>





lemma sock_bind_ok:
  assumes "sockets s fd = Some so" and "\<not> bound so" and "\<not> listening so" and "link so = None"
    and "bind_ok s"
  shows "sock_bind fd prt s =
     Some (Ret () (s\<lparr>sockets := (sockets s)(fd \<mapsto> so\<lparr>bound := True\<rparr>),
                      binds := tl (binds s),
                      trace := trace s @ [EvBind fd prt]\<rparr>))"
proof (cases "binds s")
  case Nil
  with assms show ?thesis by (simp add: sock_bind_def)
next
  case (Cons x rest)
  with assms show ?thesis by (cases x) (simp_all add: sock_bind_def bind_ok_def)
qed

lemma sock_listen_ok:
  assumes "sockets s fd = Some so" and "listen_ok s"
  shows "sock_listen fd n s =
     Some (Ret () (s\<lparr>listens := tl (listens s),
                      sockets := (sockets s)(fd \<mapsto> so\<lparr>listening := True\<rparr>),
                      trace := trace s @ [EvListen fd n]\<rparr>))"
proof (cases "listens s")
  case Nil
  with assms show ?thesis by (simp add: sock_listen_def)
next
  case (Cons x rest)
  with assms show ?thesis by (cases x) (simp_all add: sock_listen_def listen_ok_def)
qed

lemma bind_listen_ok:
  assumes "sockets s (sock s) = Some so" and "\<not> bound so" and "\<not> listening so"
    and "link so = None" and "bind_ok s" and "listen_ok s"
  shows "bind_io (sock_bind (sock s) (port s) s) (\<lambda>_ s1. bind_io (sock_listen (sock s1) 2 s1) k) =
     k () (s\<lparr>binds := tl (binds s), listens := tl (listens s),
             sockets := (sockets s)(sock s \<mapsto> so\<lparr>bound := True, listening := True\<rparr>),
             trace := trace s @ [EvBind (sock s) (port s), EvListen (sock s) 2]\<rparr>)"
proof -
  let ?s1 = "s\<lparr>sockets := (sockets s)(sock s \<mapsto> so\<lparr>bound := True\<rparr>),
               binds := tl (binds s),
               trace := trace s @ [EvBind (sock s) (port s)]\<rparr>"
  have b: "sock_bind (sock s) (port s) s = Some (Ret () ?s1)"
    using assms(1-5) by (rule sock_bind_ok)
  have l: "sock_listen (sock s) 2 ?s1 =
     Some (Ret () (?s1\<lparr>listens := tl (listens ?s1),
                      sockets := (sockets ?s1)(sock s \<mapsto> so\<lparr>bound := True\<rparr>\<lparr>listening := True\<rparr>),
                      trace := trace ?s1 @ [EvListen (sock s) 2]\<rparr>))"
    using assms(6) by (intro sock_listen_ok) (simp_all add: listen_ok_def)
  show ?thesis by (simp add: b l)
qed



lemma fresh_sock_fields [simp]:
  "sockets (fresh_sock s) (next_fd s) =
     Some \<lparr>timeout = None, bound = False, listening = False, link = None\<rparr>"
  "bind_ok (fresh_sock s) = bind_ok s"
  "listen_ok (fresh_sock s) = listen_ok s"
  "attempt_fails (fresh_sock s) = attempt_fails s"
  "accepts (fresh_sock s) = accepts s"
  "binds (fresh_sock s) = binds s"
  "listens (fresh_sock s) = listens s"
  "connects (fresh_sock s) = connects s"
  "sock (fresh_sock s) = next_fd s"
  "next_fd (fresh_sock s) = Suc (next_fd s)"
  "port (fresh_sock s) = port s"
  "trace (fresh_sock s) = trace s @ [EvSocket (next_fd s)]"
  "mode (fresh_sock s) = mode s"
  by (simp_all add: fresh_sock_def bind_ok_def listen_ok_def attempt_fails_def accept_fails_def)





section \<open>Bootstrap: waiting for a peer\<close>

lemma run_as_client_refused:
  assumes "sockets s (sock s) = Some so" and "connects s = []"
  shows "run_as_client s = Some (Ret () s)"
  using assms by (simp add: run_as_client_def sock_connect_def)

text \<open>
  What one call of \<^verbatim>\<open>__run_as_server\<close> does on a new socket when nobody connects: with
  no timeout on the socket it does not return; with a timeout, \<^verbatim>\<open>accept\<close> would raise
  \<^verbatim>\<open>socket.timeout\<close>, which the handler catches, and the call would return in mode 0.
\<close>

lemma run_as_server_no_peer:
  assumes "sockets s (sock s) = Some so" and "\<not> bound so" and "\<not> listening so"
    and "link so = None" and "bind_ok s" and "listen_ok s" and "accepts s = []"
  shows "run_as_server s =
     (case timeout so of
        None \<Rightarrow> None
      | Some t \<Rightarrow>
          Some (Ret () (s\<lparr>binds := tl (binds s), listens := tl (listens s),
                  sockets := (sockets s)(sock s \<mapsto> so\<lparr>bound := True, listening := True\<rparr>),
                  trace := trace s @ [EvBind (sock s) (port s), EvListen (sock s) 2]\<rparr>)))"
  using assms(7)
  by (simp add: run_as_server_def bind_listen_ok [OF assms(1-6)] sock_accept_def
      split: option.splits)

text \<open>
  C6. The constructor of \<^verbatim>\<open>Peer\<close>, run when nobody listens at the other side and nobody
  connects, calls \<^verbatim>\<open>__start\<close> in the state \<open>booting\<close>: \<^verbatim>\<open>self.sock\<close> is the socket that
  \<^verbatim>\<open>socket.socket\<close> made, and no timeout is set on it. The attempt to connect fails and
  leaves the mode 0, so \<^verbatim>\<open>__run_as_server\<close> is called; it binds, listens and calls
  \<^verbatim>\<open>accept\<close>, which waits without bound: that one call of \<^verbatim>\<open>__run_as_server\<close> does not
  return, neither with a connection nor with a timeout. So the loop does not come back
  to the attempt to connect, and the constructor does not return.
\<close>

theorem bootstrap_accept_unbounded:
  "Peer_attributes ''10.0.0.2'' 23333 104857600 idle = Some (Ret () booting) \<and>
   mode booting = 0 \<and>
   run_as_client booting = Some (Ret () booting) \<and>
   run_as_server booting = None \<and>
   Peer_init ''10.0.0.2'' 23333 104857600 idle = None"
proof -
  have i: "Peer_attributes ''10.0.0.2'' 23333 104857600 idle = Some (Ret () booting)"
    by (simp add: Peer_attributes_def Recorder_init_def json_load_def socket_socket_def idle_def
        booting_def)
  have so: "sockets booting (sock booting) =
      Some \<lparr>timeout = None, bound = False, listening = False, link = None\<rparr>"
    by (simp add: booting_def idle_def)
  have f: "mode booting = 0" "connects booting = []" "bind_ok booting" "listen_ok booting"
    "accepts booting = []"
    by (simp_all add: booting_def idle_def bind_ok_def listen_ok_def)
  have c: "run_as_client booting = Some (Ret () booting)"
    using so f(2) by (rule run_as_client_refused)
  have r: "run_as_server booting = None"
    using run_as_server_no_peer [OF so _ _ _ f(3,4,5)] by simp
  have "start booting = None"
    by (subst start.simps) (simp add: f(1) c r)
  then have "Peer_init ''10.0.0.2'' 23333 104857600 idle = None"
    by (simp add: Peer_init_def i)
  with i f(1) c r show ?thesis by simp
qed

section \<open>The sync loop\<close>

lemma decode_alt:
  "pure_io (decode b) s = (if utf8 (map of_char b) then Some (Ret b s) else Some (Exc UnicodeDecodeError s))"
  by (simp add: decode_def)

lemma sync_body_other:
  assumes "mode s = 2" and "sock_recv (conn_sock s) 1 s = Some (Ret b s1)"
    and "b \<noteq> ''s''" and "b \<noteq> ''r''"
  shows "sync_body s =
     (if utf8 (map of_char b) then Some (Ret () s1) else Some (Exc UnicodeDecodeError s1))"
  using assms by (simp add: sync_body_def decode_alt)

text \<open>
  C9. In server mode, when the read of the command returns anything but \<^verbatim>\<open>s\<close> or
  \<^verbatim>\<open>r\<close> (the empty read at the end of the stream included), the iteration of the
  loop of \<^verbatim>\<open>sync\<close> is that read and nothing else: the state after it differs from
  the state before only in the stream read from and the event of the read, the handler
  of \<^verbatim>\<open>ConnectionError\<close> is not entered (the iteration returns, or \<^verbatim>\<open>decode\<close> raises
  \<^verbatim>\<open>UnicodeDecodeError\<close> on a byte that is not UTF-8, which ends the loop), and the
  loop goes on from that state.
\<close>

theorem sync_other_command:
  assumes "mode s = 2" and "sock_recv (conn_sock s) 1 s = Some (Ret b s1)"
    and "b \<noteq> ''s''" and "b \<noteq> ''r''"
  shows "catch_io (sync_body s) is_ConnectionError resume =
           (if utf8 (map of_char b) then Some (Ret () s1) else Some (Exc UnicodeDecodeError s1))
     \<and> sync s = (if utf8 (map of_char b) then sync s1 else Some (Exc UnicodeDecodeError s1))
     \<and> (\<exists>fd so c rest. the_conn s (conn_sock s) = Inr (fd, so, c)
           \<and> chan_recv 1 (inbound c) = Some (Inr b, rest)
           \<and> s1 = s\<lparr>sockets := (sockets s)(fd \<mapsto> so\<lparr>link := Some (c\<lparr>inbound := rest\<rparr>)\<rparr>),
                    trace := trace s @ [EvRecv fd 1 b]\<rparr>)"
proof -
  note b = sync_body_other [OF assms]
  have 1: "catch_io (sync_body s) is_ConnectionError resume =
           (if utf8 (map of_char b) then Some (Ret () s1) else Some (Exc UnicodeDecodeError s1))"
    by (simp add: b)
  have 2: "sync s = (if utf8 (map of_char b) then sync s1 else Some (Exc UnicodeDecodeError s1))"
    by (subst sync.simps) (simp add: 1)
  have "0 < (1::nat)" by simp
  from 1 2 sock_recv_RetD [OF assms(2) this] show ?thesis by blast
qed

lemma the_conn_serving:
  "the_conn (serving rxs) (conn_sock (serving rxs)) =
     Inr (1, \<lparr>timeout = None, bound = False, listening = False, link = Some \<lparr>inbound = rxs, outbound = []\<rparr>\<rparr>,
          \<lparr>inbound = rxs, outbound = []\<rparr>)"
  by (simp add: serving_def idle_def the_conn_def)

lemma sock_recv_serving_Seg:
  "0 < n \<Longrightarrow> bs \<noteq> [] \<Longrightarrow>
   sock_recv (conn_sock (serving (Seg bs # rest))) n (serving (Seg bs # rest)) =
     Some (Ret (take n bs)
       ((serving (if drop n bs = [] then rest else Seg (drop n bs) # rest))
          \<lparr>trace := [EvRecv 1 n (take n bs)]\<rparr>))"
  by (simp add: sock_recv_pos [OF _ the_conn_serving]) (simp add: serving_def idle_def)

lemma sock_recv_serving_Eof:
  "0 < n \<Longrightarrow>
   sock_recv (conn_sock (serving (Eof # rest))) n (serving (Eof # rest)) =
     Some (Ret [] ((serving (Eof # rest))\<lparr>trace := [EvRecv 1 n []]\<rparr>))"
  by (simp add: sock_recv_pos [OF _ the_conn_serving]) (simp add: serving_def idle_def)


lemma utf8_x: "utf8 (map of_char ''x'')"
  by simp

lemma utf8_empty: "utf8 (map of_char [])"
  by simp

theorem sync_other_command_witness:
  "mode (serving [Seg ''x'']) = 2 \<and>
   sock_recv (conn_sock (serving [Seg ''x''])) 1 (serving [Seg ''x'']) =
     Some (Ret ''x'' ((serving [])\<lparr>trace := [EvRecv 1 1 ''x'']\<rparr>)) \<and>
   sync (serving [Seg ''x'']) = sync ((serving [])\<lparr>trace := [EvRecv 1 1 ''x'']\<rparr>) \<and>
   sock_recv (conn_sock (serving [Eof])) 1 (serving [Eof]) =
     Some (Ret [] ((serving [Eof])\<lparr>trace := [EvRecv 1 1 []]\<rparr>)) \<and>
   sync (serving [Eof]) = sync ((serving [Eof])\<lparr>trace := [EvRecv 1 1 []]\<rparr>)"
proof -
  have m: "mode (serving rxs) = 2" for rxs by (simp add: serving_def)
  have x: "sock_recv (conn_sock (serving [Seg ''x''])) 1 (serving [Seg ''x'']) =
     Some (Ret ''x'' ((serving [])\<lparr>trace := [EvRecv 1 1 ''x'']\<rparr>))"
    by (simp add: sock_recv_serving_Seg)
  have e: "sock_recv (conn_sock (serving [Eof])) 1 (serving [Eof]) =
     Some (Ret [] ((serving [Eof])\<lparr>trace := [EvRecv 1 1 []]\<rparr>))"
    by (simp add: sock_recv_serving_Eof)
  have "sync (serving [Seg ''x'']) =
      (if utf8 (map of_char ''x'') then sync ((serving [])\<lparr>trace := [EvRecv 1 1 ''x'']\<rparr>)
       else Some (Exc UnicodeDecodeError ((serving [])\<lparr>trace := [EvRecv 1 1 ''x'']\<rparr>)))"
    using sync_other_command [OF m x] by blast
  then have 1: "sync (serving [Seg ''x'']) = sync ((serving [])\<lparr>trace := [EvRecv 1 1 ''x'']\<rparr>)"
    by (simp only: utf8_x if_True)
  have "sync (serving [Eof]) =
      (if utf8 (map of_char []) then sync ((serving [Eof])\<lparr>trace := [EvRecv 1 1 []]\<rparr>)
       else Some (Exc UnicodeDecodeError ((serving [Eof])\<lparr>trace := [EvRecv 1 1 []]\<rparr>)))"
    using sync_other_command [OF m e] by blast
  then have 2: "sync (serving [Eof]) = sync ((serving [Eof])\<lparr>trace := [EvRecv 1 1 []]\<rparr>)"
    by (simp only: utf8_empty if_True)
  from m [of "[Seg ''x'']"] x 1 e 2 show ?thesis by blast
qed







section \<open>Send\<close>


lemma the_conn_cong:
  "sockets s' = sockets s \<Longrightarrow> the_conn s' cs = the_conn s cs"
  by (simp add: the_conn_def split: option.splits)


lemma set_ownership_fields [simp]:
  "recorder_record (set_ownership p v s) = (recorder_record s)(p \<mapsto> \<lparr>ownership = Some v, mtime = None\<rparr>)"
  "trace (set_ownership p v s) = trace s @ [EvDump ((recorder_record s)(p \<mapsto> \<lparr>ownership = Some v, mtime = None\<rparr>))]"
  "nodes (set_ownership p v s) = nodes s"
  "sockets (set_ownership p v s) = sockets s"
  "conn_sock (set_ownership p v s) = conn_sock s"
  "receive_buffer_size (set_ownership p v s) = receive_buffer_size s"
  "mode (set_ownership p v s) = mode s"
  "clock (set_ownership p v s) = clock s"
  by (simp_all add: set_ownership_def json_dump_def)

lemma the_conn_set_ownership [simp]:
  "the_conn (set_ownership p v s) cs = the_conn s cs"
  by (rule the_conn_cong) simp


lemma sent_bytes_append [simp]: "sent_bytes (xs @ ys) = sent_bytes xs @ sent_bytes ys"
  by (induction xs rule: sent_bytes.induct) simp_all





lemma unpack_pack_u32:
  assumes "a < 4294967296"
  shows "unpack_u32 (char_of (a div 16777216)) (char_of (a div 65536)) (char_of (a div 256)) (char_of a) = a"
proof -
  define a1 where "a1 = a div 256"
  define a2 where "a2 = a1 div 256"
  define a3 where "a3 = a2 div 256"
  have d2: "a div 65536 = a2" unfolding a2_def a1_def by (simp add: div_mult2_eq [symmetric])
  have d3: "a div 16777216 = a3" unfolding a3_def a2_def a1_def by (simp add: div_mult2_eq [symmetric])
  have s3: "a3 < 256" using assms unfolding d3 [symmetric] by simp
  have e1: "a1 * 256 + a mod 256 = a" unfolding a1_def by simp
  have e2: "a2 * 256 + a1 mod 256 = a1" unfolding a2_def by simp
  have e3: "a3 * 256 + a2 mod 256 = a2" unfolding a3_def by simp
  have "unpack_u32 (char_of a3) (char_of a2) (char_of a1) (char_of a) =
      ((a3 mod 256 * 256 + a2 mod 256) * 256 + a1 mod 256) * 256 + a mod 256"
    by (simp add: unpack_u32_def)
  also have "\<dots> = ((a3 * 256 + a2 mod 256) * 256 + a1 mod 256) * 256 + a mod 256"
    using s3 by simp
  also have "\<dots> = a" by (simp only: e3 e2 e1)
  finally show ?thesis by (simp only: d2 d3 a1_def [symmetric])
qed

lemma header_roundtrip:
  "a < 4294967296 \<Longrightarrow> b < 4294967296 \<Longrightarrow> header_unpack (pack_u32 a @ pack_u32 b) = Inr (a, b)"
  by (simp add: pack_u32_def unpack_pack_u32)





section \<open>Receive: one frame\<close>

lemma receive_payload_run:
  assumes "the_conn s (conn_sock s) = Inr (fd, so, c)"
    and "file_size - received_bytes \<le> length (stream (inbound c))"
    and "0 < receive_buffer_size s"
    and "nodes s p = Some (File c0 (clock s))"
  shows "\<exists>s' so' c' pay. receive_payload p file_size received_bytes s = Some (Ret () s')
     \<and> trace s' = trace s @ pay
     \<and> recv_bytes pay = take (file_size - received_bytes) (stream (inbound c))
     \<and> nodes s' = (nodes s)(p \<mapsto> File (c0 @ take (file_size - received_bytes) (stream (inbound c))) (clock s))
     \<and> recorder_record s' = recorder_record s \<and> conn_sock s' = conn_sock s \<and> clock s' = clock s
     \<and> the_conn s' (conn_sock s') = Inr (fd, so', c')
     \<and> stream (inbound c') = drop (file_size - received_bytes) (stream (inbound c))"
  using assms
proof (induction "file_size - received_bytes" arbitrary: received_bytes s so c c0 rule: less_induct)
  case less
  show ?case
  proof (cases "received_bytes < file_size")
    case False
    have "receive_payload p file_size received_bytes s = Some (Ret () s)"
      using False by (subst receive_payload.simps) simp
    moreover have "nodes s = (nodes s)(p \<mapsto> File (c0 @ take (file_size - received_bytes) (stream (inbound c))) (clock s))"
      using False less.prems(4) by (simp add: map_upd_triv)
    moreover have "trace s = trace s @ []" "recv_bytes [] = take (file_size - received_bytes) (stream (inbound c))"
      "stream (inbound c) = drop (file_size - received_bytes) (stream (inbound c))"
      using False by simp_all
    ultimately show ?thesis using less.prems(1) by blast
  next
    case True
    let ?n = "min (file_size - received_bytes) (receive_buffer_size s)"
    have n: "0 < ?n" using True less.prems(3) by simp
    have a: "stream (inbound c) \<noteq> []" using True less.prems(2) by auto
    from sock_recv_stream [OF less.prems(1) n a] obtain bs rest where
      bs: "bs \<noteq> []" "length bs \<le> ?n" "stream (inbound c) = bs @ stream rest" and
      r: "sock_recv (conn_sock s) ?n s =
            Some (Ret bs (s\<lparr>sockets := (sockets s)(fd \<mapsto> so\<lparr>link := Some (c\<lparr>inbound := rest\<rparr>)\<rparr>),
                             trace := trace s @ [EvRecv fd ?n bs]\<rparr>))"
      by blast
    let ?s1 = "s\<lparr>sockets := (sockets s)(fd \<mapsto> so\<lparr>link := Some (c\<lparr>inbound := rest\<rparr>)\<rparr>),
                 trace := trace s @ [EvRecv fd ?n bs]\<rparr>"
    let ?s2 = "file_write p bs ?s1"
    have c2: "the_conn ?s2 (conn_sock ?s2) = Inr (fd, so\<lparr>link := Some (c\<lparr>inbound := rest\<rparr>)\<rparr>, c\<lparr>inbound := rest\<rparr>)"
      using the_conn_after_recv [OF less.prems(1), where c' = "c\<lparr>inbound := rest\<rparr>" and t = "trace s @ [EvRecv fd ?n bs]"]
      by simp
    have m: "file_size - (received_bytes + length bs) < file_size - received_bytes"
      using True bs(1) by (cases bs) simp_all
    have le: "file_size - (received_bytes + length bs) \<le> length (stream (inbound (c\<lparr>inbound := rest\<rparr>)))"
      using less.prems(2) bs(3) by simp
    have b: "0 < receive_buffer_size ?s2" using less.prems(3) by simp
    have nd: "nodes ?s2 = (nodes s)(p \<mapsto> File (c0 @ bs) (clock s))"
      using less.prems(4) by (simp add: file_write_def)
    have ck: "clock ?s2 = clock s" by (simp add: file_write_def)
    have n2: "nodes ?s2 p = Some (File (c0 @ bs) (clock ?s2))"
      unfolding nd ck by simp
    from less.hyps [OF m c2 le b n2] obtain s' so' c' pay where
      s': "receive_payload p file_size (received_bytes + length bs) ?s2 = Some (Ret () s')"
          "trace s' = trace ?s2 @ pay"
          "recv_bytes pay = take (file_size - (received_bytes + length bs)) (stream (inbound (c\<lparr>inbound := rest\<rparr>)))"
          "nodes s' = (nodes ?s2)(p \<mapsto> File ((c0 @ bs) @ take (file_size - (received_bytes + length bs))
               (stream (inbound (c\<lparr>inbound := rest\<rparr>)))) (clock ?s2))"
          "recorder_record s' = recorder_record ?s2" "conn_sock s' = conn_sock ?s2" "clock s' = clock ?s2"
          "the_conn s' (conn_sock s') = Inr (fd, so', c')"
          "stream (inbound c') = drop (file_size - (received_bytes + length bs)) (stream (inbound (c\<lparr>inbound := rest\<rparr>)))"
      by blast
    have k: "take (file_size - received_bytes) (stream (inbound c)) =
             bs @ take (file_size - (received_bytes + length bs)) (stream rest)"
      using bs(2,3) by simp
    have kd: "drop (file_size - received_bytes) (stream (inbound c)) =
             drop (file_size - (received_bytes + length bs)) (stream rest)"
      using bs(2,3) by simp
    have 1: "receive_payload p file_size received_bytes s = Some (Ret () s')"
      by (subst receive_payload.simps) (simp add: True r s'(1))
    have 2: "trace s' = trace s @ (EvRecv fd ?n bs # EvWrite p bs # pay)"
      using s'(2) by simp
    have 3: "recv_bytes (EvRecv fd ?n bs # EvWrite p bs # pay) = take (file_size - received_bytes) (stream (inbound c))"
      using s'(3) k by simp
    have 4: "nodes s' = (nodes s)(p \<mapsto> File (c0 @ take (file_size - received_bytes) (stream (inbound c))) (clock s))"
      unfolding s'(4) nd ck k by simp
    have 5: "recorder_record s' = recorder_record s" "conn_sock s' = conn_sock s" "clock s' = clock s"
      using s'(5,6,7) by (simp_all add: file_write_def)
    have 6: "stream (inbound c') = drop (file_size - received_bytes) (stream (inbound c))"
      using s'(9) kd by simp
    from 1 2 3 4 5 6 s'(8) show ?thesis by blast
  qed
qed

lemma rsplit_head_shorter:
  assumes "CHR ''/'' \<in> set p"
  shows "length (rsplit_head p) < length p"
proof -
  let ?d = "dropWhile (\<lambda>c. c \<noteq> CHR ''/'') (rev p)"
  have "?d \<noteq> []" using assms by (simp add: dropWhile_eq_Nil_conv)
  then have a: "0 < length ?d" by simp
  have b: "length ?d \<le> length p" using length_dropWhile_le [of _ "rev p"] by simp
  have "length (rsplit_head p) = length ?d - 1" using assms by (simp add: rsplit_head_def)
  with a b show ?thesis by linarith
qed

lemma os_path_isdir_nodes:
  "nodes s' = nodes s \<Longrightarrow> os_path_isdir s' p = os_path_isdir s p"
  by (simp add: os_path_isdir_def)

lemma parent_exists_nodes:
  "nodes s' = nodes s \<Longrightarrow> parent_exists s' p = parent_exists s p"
  by (simp add: parent_exists_def os_path_isdir_def)

lemma del_rec_fields [simp]:
  "recorder_record (del_rec p s) = (recorder_record s)(p := None)"
  "trace (del_rec p s) = trace s @ [EvDump ((recorder_record s)(p := None))]"
  "nodes (del_rec p s) = nodes s"
  "sockets (del_rec p s) = sockets s"
  "conn_sock (del_rec p s) = conn_sock s"
  "receive_buffer_size (del_rec p s) = receive_buffer_size s"
  "clock (del_rec p s) = clock s"
  by (simp_all add: del_rec_def json_dump_def)

lemma sock_recv_Seg:
  assumes "the_conn s cs = Inr (fd, so, c)" and "inbound c = Seg bs # rest" and "bs \<noteq> []"
    and "0 < n"
  shows "sock_recv cs n s =
     Some (Ret (take n bs)
       (s\<lparr>sockets := (sockets s)(fd \<mapsto> so\<lparr>link :=
                Some (c\<lparr>inbound := (if drop n bs = [] then rest else Seg (drop n bs) # rest)\<rparr>)\<rparr>),
          trace := trace s @ [EvRecv fd n (take n bs)]\<rparr>))"
  using assms(2,3) by (simp add: sock_recv_pos [OF assms(4,1)])

text \<open>
  What \<^verbatim>\<open>__receive\<close> does with a frame whose header is read: the path is what one
  \<^verbatim>\<open>recv(path_size)\<close> returns. The record of that path is deleted and set with the
  ownership false, the directory before the last \<^verbatim>\<open>/\<close> of the path is made when it
  does not exist, the file is opened, \<^verbatim>\<open>file_size\<close> bytes are read and written to
  it, and the modification time is recorded.
\<close>

lemma receive_file_run:
  assumes c: "the_conn s (conn_sock s) = Inr (fd, so, c)"
    and i: "inbound c = Seg bs # rest" "bs \<noteq> []"
    and p: "p = take path_size bs"
    and u: "utf8 (map of_char p)"
    and sl: "CHR ''/'' \<in> set p"
    and d: "rsplit_head p \<noteq> []"
    and pd: "\<not> os_path_isdir s p"
    and par: "os_path_isdir s (rsplit_head p)
              \<or> (nodes s (rsplit_head p) = None \<and> parent_exists s (rsplit_head p))"
    and pay: "file_size \<le> length (drop path_size bs @ stream rest)"
    and buf: "0 < receive_buffer_size s"
  shows "\<exists>s' pay. receive_file path_size file_size s = Some (Ret True s')
     \<and> trace s' = trace s @
          [EvRecv fd path_size p,
           EvDump ((recorder_record s)(p := None)),
           EvDump ((recorder_record s)(p \<mapsto> \<lparr>ownership = Some False, mtime = None\<rparr>))]
          @ (if os_path_exists s (rsplit_head p) then [] else [EvMkdir (rsplit_head p)])
          @ [EvOpenW p] @ pay
          @ [EvDump ((recorder_record s)(p \<mapsto> \<lparr>ownership = Some False, mtime = Some (clock s)\<rparr>))]
     \<and> recv_bytes pay = take file_size (drop path_size bs @ stream rest)
     \<and> nodes s' p = Some (File (take file_size (drop path_size bs @ stream rest)) (clock s))
     \<and> recorder_record s' = (recorder_record s)(p \<mapsto> \<lparr>ownership = Some False, mtime = Some (clock s)\<rparr>)
     \<and> (\<forall>q. q \<noteq> p \<and> q \<noteq> rsplit_head p \<longrightarrow> nodes s' q = nodes s q)
     \<and> (\<exists>so' c'. the_conn s' (conn_sock s') = Inr (fd, so', c')
           \<and> stream (inbound c') = drop file_size (drop path_size bs @ stream rest))"
proof -
  let ?d = "rsplit_head p"
  let ?rx = "if drop path_size bs = [] then rest else Seg (drop path_size bs) # rest"
  from the_conn_fd [OF c] have cs: "conn_sock s = Some fd" .
  have pne: "p \<noteq> []" using sl by auto
  have dp: "?d \<noteq> p" using rsplit_head_shorter [OF sl] by auto
  have srx: "stream ?rx = drop path_size bs @ stream rest" by simp
  \<comment> \<open>the read of the path\<close>
  define s1 where "s1 = s\<lparr>sockets := (sockets s)(fd \<mapsto> so\<lparr>link := Some (c\<lparr>inbound := ?rx\<rparr>)\<rparr>),
      trace := trace s @ [EvRecv fd path_size p]\<rparr>"
  have ps: "0 < path_size" using pne p by (cases path_size) simp_all
  have e1: "sock_recv (conn_sock s) path_size s = Some (Ret p s1)"
    unfolding s1_def p by (rule sock_recv_Seg [OF c i ps])
  have e2: "pure_io (decode p) s1 = Some (Ret p s1)"
    using u by (simp add: decode_def)
  \<comment> \<open>the record\<close>
  define s2 where "s2 = set_ownership p False (del_rec p s1)"
  have f2: "recorder_record s2 = (recorder_record s)(p \<mapsto> \<lparr>ownership = Some False, mtime = None\<rparr>)"
    "trace s2 = trace s @ [EvRecv fd path_size p, EvDump ((recorder_record s)(p := None)),
        EvDump ((recorder_record s)(p \<mapsto> \<lparr>ownership = Some False, mtime = None\<rparr>))]"
    "nodes s2 = nodes s" "conn_sock s2 = conn_sock s" "clock s2 = clock s"
    "receive_buffer_size s2 = receive_buffer_size s"
    "sockets s2 = (sockets s)(fd \<mapsto> so\<lparr>link := Some (c\<lparr>inbound := ?rx\<rparr>)\<rparr>)"
    by (simp_all add: s2_def s1_def)
  \<comment> \<open>the directory\<close>
  define s3 where "s3 = (if os_path_exists s ?d then s2
      else s2\<lparr>nodes := (nodes s2)(?d \<mapsto> Dir (clock s2)), trace := trace s2 @ [EvMkdir ?d]\<rparr>)"
  have ex2: "os_path_exists s2 ?d = os_path_exists s ?d"
    by (simp add: os_path_exists_def f2)
  have e3: "(if \<not> os_path_exists s2 ?d then step_io (os_mkdir ?d s2) s2 else Some (Ret () s2)) =
      Some (Ret () s3)"
  proof (cases "os_path_exists s ?d")
    case True
    then show ?thesis by (simp add: ex2 s3_def)
  next
    case False
    with d have nn: "nodes s ?d = None" by (simp add: os_path_exists_def)
    with par have "parent_exists s ?d" by (auto simp: os_path_isdir_def)
    then have "parent_exists s2 ?d" by (simp add: parent_exists_nodes [OF f2(3)])
    with False nn d show ?thesis by (simp add: ex2 s3_def os_mkdir_def f2)
  qed
  have f3: "os_path_isdir s3 ?d" "nodes s3 p = nodes s p" "recorder_record s3 = recorder_record s2"
    "conn_sock s3 = conn_sock s" "clock s3 = clock s" "receive_buffer_size s3 = receive_buffer_size s"
    "sockets s3 = sockets s2"
    "trace s3 = trace s2 @ (if os_path_exists s ?d then [] else [EvMkdir ?d])"
    "\<And>q. q \<noteq> ?d \<Longrightarrow> nodes s3 q = nodes s q"
  proof -
    show "os_path_isdir s3 ?d"
    proof (cases "os_path_exists s ?d")
      case True
      with par have "os_path_isdir s ?d" by (auto simp: os_path_exists_def)
      with True show ?thesis by (simp add: s3_def os_path_isdir_nodes [OF f2(3)])
    next
      case False
      then show ?thesis by (simp add: s3_def os_path_isdir_def)
    qed
    show "nodes s3 p = nodes s p" using dp by (simp add: s3_def f2)
  qed (simp_all add: s3_def f2)
  \<comment> \<open>the file\<close>
  define s4 where "s4 = s3\<lparr>nodes := (nodes s3)(p \<mapsto> File [] (clock s3)), trace := trace s3 @ [EvOpenW p]\<rparr>"
  have e4: "step_io (open_wb p s3) s3 = Some (Ret () s4)"
  proof -
    have "\<not> os_path_isdir s3 p" using pd f3(2) by (simp add: os_path_isdir_def)
    moreover have "parent_exists s3 p" using sl f3(1) by (simp add: parent_exists_def)
    ultimately show ?thesis using pne by (simp add: open_wb_def s4_def)
  qed
  have c4: "the_conn s4 (conn_sock s4) = Inr (fd, so\<lparr>link := Some (c\<lparr>inbound := ?rx\<rparr>)\<rparr>, c\<lparr>inbound := ?rx\<rparr>)"
    using cs by (simp add: s4_def f3 f2 the_conn_def)
  have n4: "nodes s4 p = Some (File [] (clock s4))" by (simp add: s4_def)
  have b4: "0 < receive_buffer_size s4" using buf by (simp add: s4_def f3)
  have irx: "stream (inbound (c\<lparr>inbound := ?rx\<rparr>)) = drop path_size bs @ stream rest"
    by simp
  have l4: "file_size - 0 \<le> length (stream (inbound (c\<lparr>inbound := ?rx\<rparr>)))"
    unfolding irx using pay by simp
  from receive_payload_run [OF c4 l4 b4 n4] obtain s5 so5 c5 pay where
    s5: "receive_payload p file_size 0 s4 = Some (Ret () s5)"
      "trace s5 = trace s4 @ pay"
      "recv_bytes pay = take (file_size - 0) (stream (inbound (c\<lparr>inbound := ?rx\<rparr>)))"
      "nodes s5 = (nodes s4)(p \<mapsto> File ([] @ take (file_size - 0) (stream (inbound (c\<lparr>inbound := ?rx\<rparr>)))) (clock s4))"
      "recorder_record s5 = recorder_record s4" "conn_sock s5 = conn_sock s4" "clock s5 = clock s4"
      "the_conn s5 (conn_sock s5) = Inr (fd, so5, c5)"
      "stream (inbound c5) = drop (file_size - 0) (stream (inbound (c\<lparr>inbound := ?rx\<rparr>)))"
    by blast
  have f5: "recorder_record s5 = (recorder_record s)(p \<mapsto> \<lparr>ownership = Some False, mtime = None\<rparr>)"
    "nodes s5 p = Some (File (take file_size (drop path_size bs @ stream rest)) (clock s))"
    "trace s5 = trace s @ [EvRecv fd path_size p, EvDump ((recorder_record s)(p := None)),
        EvDump ((recorder_record s)(p \<mapsto> \<lparr>ownership = Some False, mtime = None\<rparr>))]
        @ (if os_path_exists s ?d then [] else [EvMkdir ?d]) @ [EvOpenW p] @ pay"
    using s5(2,4,5) unfolding irx by (simp_all add: s4_def f3 f2)
  \<comment> \<open>the modification time\<close>
  define s6 where "s6 = json_dump (s5\<lparr>recorder_record := (recorder_record s5)(p \<mapsto>
       \<lparr>ownership = Some False, mtime = None\<rparr>\<lparr>mtime := Some (clock s)\<rparr>)\<rparr>)"
  have e6: "step_io (add_rec p s5) s5 = Some (Ret () s6)"
    using f5(1,2) by (simp add: add_rec_def os_path_getmtime_def s6_def)
  have r: "receive_file path_size file_size s = Some (Ret True s6)"
    unfolding receive_file_def e1 bind_io_simps e2 e3 [unfolded s2_def] e4 s5(1) e6
    by (rule refl)
  have t6: "trace s6 = trace s @
          [EvRecv fd path_size p,
           EvDump ((recorder_record s)(p := None)),
           EvDump ((recorder_record s)(p \<mapsto> \<lparr>ownership = Some False, mtime = None\<rparr>))]
          @ (if os_path_exists s ?d then [] else [EvMkdir ?d])
          @ [EvOpenW p] @ pay
          @ [EvDump ((recorder_record s)(p \<mapsto> \<lparr>ownership = Some False, mtime = Some (clock s)\<rparr>))]"
    using f5(1,3) by (simp add: s6_def json_dump_def)
  have n6: "nodes s6 p = Some (File (take file_size (drop path_size bs @ stream rest)) (clock s))"
    using f5(2) by (simp add: s6_def json_dump_def)
  have o6: "\<forall>q. q \<noteq> p \<and> q \<noteq> ?d \<longrightarrow> nodes s6 q = nodes s q"
    using s5(4) f3(9) by (simp add: s6_def json_dump_def s4_def)
  have r6: "recorder_record s6 = (recorder_record s)(p \<mapsto> \<lparr>ownership = Some False, mtime = Some (clock s)\<rparr>)"
    using f5(1) by (simp add: s6_def json_dump_def)
  have "the_conn s6 cs' = the_conn s5 cs'" for cs'
    by (rule the_conn_cong) (simp add: s6_def json_dump_def)
  moreover have "conn_sock s6 = conn_sock s5" by (simp add: s6_def json_dump_def)
  ultimately have c6: "the_conn s6 (conn_sock s6) = Inr (fd, so5, c5)"
    using s5(8) by simp
  have st: "stream (inbound c5) = drop file_size (drop path_size bs @ stream rest)"
    using s5(9) unfolding irx by simp
  have rb: "recv_bytes pay = take file_size (drop path_size bs @ stream rest)"
    using s5(3) unfolding irx by simp
  from r t6 rb n6 r6 o6 c6 st show ?thesis
    by (intro exI [of _ s6] exI [of _ pay] conjI exI [of _ so5] exI [of _ c5]) simp_all
qed

text \<open>
  C3. The path is read by one \<^verbatim>\<open>recv\<close>, which may return fewer bytes than the header
  declares; the loop that reads the content asks again until it has them all, the read
  of the path does not. Here the header declares a path of 14 bytes,
  \<^verbatim>\<open>./share/ab.txt\<close>, of which 10 arrive first: the file \<^verbatim>\<open>./share/ab\<close> is made and
  recorded, its content is \<^verbatim>\<open>.t\<close>, the next two bytes of the path, and the rest of
  the path and the content \<^verbatim>\<open>hi\<close> stay in the stream, where the next header is read.
\<close>

theorem receive_takes_short_path:
  "\<exists>s'. receive_frame split_path = Some (Ret True s')
     \<and> nodes s' ''./share/ab'' = Some (File ''.t'' 0)
     \<and> nodes s' ''./share/ab.txt'' = None
     \<and> recorder_record s' = [''./share/ab'' \<mapsto> \<lparr>ownership = Some False, mtime = Some 0\<rparr>]
     \<and> (\<exists>so' c'. the_conn s' (conn_sock s') = Inr (0, so', c')
           \<and> stream (inbound c') = ''xthi'' @ pack_u32 0 @ pack_u32 0)"
proof -
  let ?rest = "[Seg ''.txt'', Seg ''hi'', Seg (pack_u32 0 @ pack_u32 0)]"
  let ?so = "\<lparr>timeout = None, bound = False, listening = False,
       link = Some \<lparr>inbound = Seg (pack_u32 14 @ pack_u32 2) # Seg ''./share/ab'' # ?rest, outbound = []\<rparr>\<rparr>"
  let ?c = "\<lparr>inbound = Seg (pack_u32 14 @ pack_u32 2) # Seg ''./share/ab'' # ?rest, outbound = []\<rparr>"
  have c0: "the_conn split_path (conn_sock split_path) = Inr (0, ?so, ?c)"
    by (simp add: split_path_def receiving_def idle_def the_conn_def)
  have l8: "length (pack_u32 14 @ pack_u32 2) = 8" by (simp add: pack_u32_def)
  define w1 where "w1 = split_path\<lparr>sockets := (sockets split_path)(0 \<mapsto> ?so\<lparr>link :=
        Some (?c\<lparr>inbound := Seg ''./share/ab'' # ?rest\<rparr>)\<rparr>),
      trace := trace split_path @ [EvRecv 0 header_size (pack_u32 14 @ pack_u32 2)]\<rparr>"
  have h: "sock_recv (conn_sock split_path) header_size split_path = Some (Ret (pack_u32 14 @ pack_u32 2) w1)"
    using sock_recv_Seg [OF c0, of "pack_u32 14 @ pack_u32 2" "Seg ''./share/ab'' # ?rest" header_size] l8
    by (simp add: header_size_def w1_def pack_u32_def)
  have hu: "header_unpack (pack_u32 14 @ pack_u32 2) = Inr (14, 2)"
    by (rule header_roundtrip) simp_all
  have f: "receive_frame split_path = receive_file 14 2 w1"
    by (simp add: receive_frame_def h hu)
  have c1: "the_conn w1 (conn_sock w1) =
      Inr (0, ?so\<lparr>link := Some (?c\<lparr>inbound := Seg ''./share/ab'' # ?rest\<rparr>)\<rparr>,
           ?c\<lparr>inbound := Seg ''./share/ab'' # ?rest\<rparr>)"
    by (simp add: w1_def split_path_def receiving_def idle_def the_conn_def)
  have n1: "nodes w1 = [''.'' \<mapsto> Dir 0, ''./share'' \<mapsto> Dir 0]" "clock w1 = 0"
    "recorder_record w1 = Map.empty" "receive_buffer_size w1 = 104857600"
    by (simp_all add: w1_def split_path_def receiving_def idle_def)
  have p: "''./share/ab'' = take 14 ''./share/ab''" by simp
  have rh: "rsplit_head ''./share/ab'' = ''./share''" by (simp add: rsplit_head_def)
  from receive_file_run [OF c1 _ _ p, where file_size = 2]
  obtain s' so' c' where
    s': "receive_file 14 2 w1 = Some (Ret True s')"
      "nodes s' ''./share/ab'' = Some (File (take 2 (drop 14 ''./share/ab'' @ stream ?rest)) (clock w1))"
      "recorder_record s' = (recorder_record w1)(''./share/ab'' \<mapsto> \<lparr>ownership = Some False, mtime = Some (clock w1)\<rparr>)"
      "\<forall>q. q \<noteq> ''./share/ab'' \<and> q \<noteq> rsplit_head ''./share/ab'' \<longrightarrow> nodes s' q = nodes w1 q"
      "the_conn s' (conn_sock s') = Inr (0, so', c')"
      "stream (inbound c') = drop 2 (drop 14 ''./share/ab'' @ stream ?rest)"
    by (auto simp: rh n1 os_path_isdir_def pack_u32_def)
  have "nodes s' ''./share/ab.txt'' = nodes w1 ''./share/ab.txt''"
    using s'(4) by (simp add: rh)
  then have 1: "nodes s' ''./share/ab.txt'' = None" by (simp add: n1)
  have 2: "nodes s' ''./share/ab'' = Some (File ''.t'' 0)" using s'(2) by (simp add: n1)
  have 3: "recorder_record s' = [''./share/ab'' \<mapsto> \<lparr>ownership = Some False, mtime = Some 0\<rparr>]"
    using s'(3) by (simp add: n1)
  have 4: "stream (inbound c') = ''xthi'' @ pack_u32 0 @ pack_u32 0" using s'(6) by simp
  from f s'(1) 1 2 3 4 s'(5) show ?thesis by auto
qed

end
